theory Spec2Isabelle
  imports Main
begin

section \<open>Session transport (pkg/server/client.go)\<close>

text \<open>
  Go strings are byte sequences; they are modelled as \<^typ>\<open>string\<close>, a list of 8-bit
  characters. A byte value is written \<open>CHR 0xFF\<close>.
\<close>

datatype error =
    ErrClientDisconnected
  | EOF
  | ErrConnWrite
  | Failure string

datatype ClientState =
    StateConnected
  | StateAuthenticating
  | StateCreatingAccount
  | StateConfirmingPassword
  | StateCharacterSelection
  | StateInGame
  | StateDisconnecting

text \<open>
  The \<open>net.Conn\<close> of a client. \<open>rd\<close> holds the bytes that the peer will still deliver;
  a read past them fails with \<open>EOF\<close>. \<open>wlog\<close> records every call of \<open>Write\<close> in order,
  with the bytes handed over and whether the call succeeded. A write fails on a closed
  connection, and otherwise whenever \<open>wfail\<close> says so for the number of the call
  (the network may fail at any time).
\<close>

record Conn =
  rd :: string
  wlog :: "(string \<times> bool) list"
  wfail :: "nat \<Rightarrow> bool"
  closed :: bool

definition conn_Write :: "string \<Rightarrow> Conn \<Rightarrow> error option \<times> Conn" where
  "conn_Write bs k =
     (if closed k \<or> wfail k (length (wlog k))
      then (Some ErrConnWrite, k\<lparr>wlog := wlog k @ [(bs, False)]\<rparr>)
      else (None, k\<lparr>wlog := wlog k @ [(bs, True)]\<rparr>))"

definition conn_Close :: "Conn \<Rightarrow> Conn" where
  "conn_Close k = k\<lparr>closed := True\<rparr>"

text \<open>
  The \<open>Client\<close> struct. \<open>reader\<close> is the buffered view of \<open>rd (conn c)\<close>; \<open>writer\<close> is a
  \<open>bufio.Writer\<close> whose buffer is empty between calls (every \<open>WriteString\<close> of the source is
  followed by \<open>Flush\<close>) and whose only state is its sticky error \<open>werr\<close>. The mutex and
  \<open>lastActive\<close> (a wall-clock time) are not modelled.
\<close>

record Client =
  ID :: string
  conn :: Conn
  werr :: "error option"
  connected :: bool
  playerID :: string
  characterID :: string
  state :: ClientState
  tempUsername :: string
  tempPassword :: string
  tempEmail :: string

definition NewClient :: "string \<Rightarrow> Conn \<Rightarrow> Client" where
  "NewClient cid k =
     \<lparr>ID = cid, conn = k, werr = None, connected = True, playerID = [], characterID = [],
      state = StateConnected, tempUsername = [], tempPassword = [], tempEmail = []\<rparr>"

text \<open>\<open>c.conn.Write(bs)\<close>: an unbuffered write straight to the connection.\<close>

definition client_conn_Write :: "string \<Rightarrow> Client \<Rightarrow> error option \<times> Client" where
  "client_conn_Write bs c =
     (case conn_Write bs (conn c) of (r, k) \<Rightarrow> (r, c\<lparr>conn := k\<rparr>))"

text \<open>
  \<open>c.writer.WriteString(s)\<close> followed by \<open>c.writer.Flush()\<close>: once the writer has seen an
  error it returns that error and writes nothing more; otherwise the bytes go to the
  connection in one write, and a failure of that write sticks.
\<close>

definition writer_WriteFlush :: "string \<Rightarrow> Client \<Rightarrow> error option \<times> Client" where
  "writer_WriteFlush s c =
     (case werr c of
        Some e \<Rightarrow> (Some e, c)
      | None \<Rightarrow> (case conn_Write s (conn c) of (r, k) \<Rightarrow> (r, c\<lparr>conn := k, werr := r\<rparr>)))"

definition CRLF :: string where
  "CRLF = [CHR 0x0D, CHR 0x0A]"

definition Send :: "string \<Rightarrow> Client \<Rightarrow> error option \<times> Client" where
  "Send message c =
     (if \<not> connected c then (Some ErrClientDisconnected, c)
      else writer_WriteFlush (message @ CRLF) c)"

definition SendPrompt :: "string \<Rightarrow> Client \<Rightarrow> error option \<times> Client" where
  "SendPrompt prompt c =
     (if \<not> connected c then (Some ErrClientDisconnected, c)
      else writer_WriteFlush prompt c)"

definition IsConnected :: "Client \<Rightarrow> bool" where
  "IsConnected c = connected c"

definition Close :: "Client \<Rightarrow> Client" where
  "Close c =
     (if \<not> connected c then c
      else c\<lparr>connected := False, state := StateDisconnecting, conn := conn_Close (conn c)\<rparr>)"

definition SetPlayerID :: "string \<Rightarrow> Client \<Rightarrow> Client" where
  "SetPlayerID p c = c\<lparr>playerID := p\<rparr>"

definition SetCharacterID :: "string \<Rightarrow> Client \<Rightarrow> Client" where
  "SetCharacterID x c = c\<lparr>characterID := x\<rparr>"

definition SetState :: "ClientState \<Rightarrow> Client \<Rightarrow> Client" where
  "SetState s c = c\<lparr>state := s\<rparr>"

definition SetTempUsername :: "string \<Rightarrow> Client \<Rightarrow> Client" where
  "SetTempUsername u c = c\<lparr>tempUsername := u\<rparr>"

definition SetTempPassword :: "string \<Rightarrow> Client \<Rightarrow> Client" where
  "SetTempPassword p c = c\<lparr>tempPassword := p\<rparr>"

definition SetTempEmail :: "string \<Rightarrow> Client \<Rightarrow> Client" where
  "SetTempEmail e c = c\<lparr>tempEmail := e\<rparr>"

definition ClearTempData :: "Client \<Rightarrow> Client" where
  "ClearTempData c = c\<lparr>tempUsername := [], tempPassword := [], tempEmail := []\<rparr>"

subsection \<open>Reading\<close>

text \<open>\<open>c.reader.ReadByte()\<close> on the pending input.\<close>

definition ReadByte :: "string \<Rightarrow> (error + char) \<times> string" where
  "ReadByte bs = (case bs of [] \<Rightarrow> (Inl EOF, []) | b # r \<Rightarrow> (Inr b, r))"

text \<open>
  \<open>ReadLine\<close>: \<open>ReadString('\n')\<close> consumes the input through the first newline, or all
  of it and fails when there is none; then one trailing newline and one trailing
  carriage return are cut.
\<close>

definition ReadString_nl :: "string \<Rightarrow> (error + string) \<times> string" where
  "ReadString_nl bs =
     (if CHR 0x0A \<in> set bs
      then (Inr (takeWhile (\<lambda>b. b \<noteq> CHR 0x0A) bs @ [CHR 0x0A]),
            tl (dropWhile (\<lambda>b. b \<noteq> CHR 0x0A) bs))
      else (Inl EOF, []))"

definition ReadLine :: "Client \<Rightarrow> (error + string) \<times> Client" where
  "ReadLine c =
     (case ReadString_nl (rd (conn c)) of
        (Inl err, rest) \<Rightarrow> (Inl err, c\<lparr>conn := (conn c)\<lparr>rd := rest\<rparr>\<rparr>)
      | (Inr line, rest) \<Rightarrow>
          (let line1 = (if length line > 0 \<and> last line = CHR 0x0A then butlast line else line);
               line2 = (if length line1 > 0 \<and> last line1 = CHR 0x0D then butlast line1 else line1)
           in (Inr line2, c\<lparr>conn := (conn c)\<lparr>rd := rest\<rparr>\<rparr>)))"

text \<open>
  Go's conversion \<open>string(char)\<close> of a byte: the UTF-8 encoding of the code point with
  that number, which is the byte itself below 128 and two bytes from 128 on.
\<close>

definition string_of_byte :: "char \<Rightarrow> string" where
  "string_of_byte b =
     (if (of_char b :: nat) < 128 then [b]
      else [char_of (192 + (of_char b :: nat) div 64), char_of (128 + (of_char b :: nat) mod 64)])"

text \<open>
  The read loop of \<open>ReadPassword\<close> on the pending input, with the line collected so far.
  It returns the read error or the line, and the input left. The two reads after a 255
  byte drop their results, errors included.
\<close>

function ReadPassword_loop :: "string \<Rightarrow> string \<Rightarrow> (error + string) \<times> string" where
  "ReadPassword_loop bs line =
     (case ReadByte bs of
        (Inl err, rest) \<Rightarrow> (Inl err, rest)
      | (Inr char, rest) \<Rightarrow>
          if char = CHR 0xFF then ReadPassword_loop (snd (ReadByte (snd (ReadByte rest)))) line
          else if char = CHR 0x0A then (Inr line, rest)
          else if char = CHR 0x0D then ReadPassword_loop rest line
          else ReadPassword_loop rest (line @ string_of_byte char))"
  by pat_completeness auto
termination
  by (relation "measure (\<lambda>(bs, line). length bs)")
     (auto simp: ReadByte_def split: list.splits)

declare ReadPassword_loop.simps [simp del]

definition IAC_WILL_ECHO :: string where
  "IAC_WILL_ECHO = [CHR 0xFF, CHR 0xFB, CHR 0x01]"

definition IAC_WONT_ECHO :: string where
  "IAC_WONT_ECHO = [CHR 0xFF, CHR 0xFC, CHR 0x01]"

definition set_rd :: "string \<Rightarrow> Client \<Rightarrow> Client" where
  "set_rd bs c = c\<lparr>conn := (conn c)\<lparr>rd := bs\<rparr>\<rparr>"

definition ReadPassword :: "Client \<Rightarrow> (error + string) \<times> Client" where
  "ReadPassword c =
     (case client_conn_Write IAC_WILL_ECHO c of
        (Some err, c1) \<Rightarrow> (Inl err, c1)
      | (None, c1) \<Rightarrow>
          (case ReadPassword_loop (rd (conn c1)) [] of
             (Inl err, rest) \<Rightarrow>
               (Inl err, snd (client_conn_Write IAC_WONT_ECHO (set_rd rest c1)))
           | (Inr line, rest) \<Rightarrow>
               (case client_conn_Write IAC_WONT_ECHO (set_rd rest c1) of
                  (Some err, c2) \<Rightarrow> (Inl err, c2)
                | (None, c2) \<Rightarrow> (Inr line, snd (writer_WriteFlush CRLF c2)))))"

section \<open>Library functions used by the session driver\<close>

text \<open>
  \<open>strings.TrimSpace\<close> removes leading and trailing white space as Unicode defines it.
  On a byte string the white-space runes are these UTF-8 encodings: the six ASCII
  characters, U+0085, U+00A0, U+1680, U+2000 to U+200A, U+2028, U+2029, U+202F, U+205F
  and U+3000. A byte that does not start one of them (an invalid byte included) ends the
  trimming.
\<close>

definition unicode_spaces :: "string list" where
  "unicode_spaces =
     [[CHR 0x09], [CHR 0x0A], [CHR 0x0B], [CHR 0x0C], [CHR 0x0D], [CHR 0x20],
      [CHR 0xC2, CHR 0x85], [CHR 0xC2, CHR 0xA0], [CHR 0xE1, CHR 0x9A, CHR 0x80],
      [CHR 0xE2, CHR 0x80, CHR 0x80], [CHR 0xE2, CHR 0x80, CHR 0x81],
      [CHR 0xE2, CHR 0x80, CHR 0x82], [CHR 0xE2, CHR 0x80, CHR 0x83],
      [CHR 0xE2, CHR 0x80, CHR 0x84], [CHR 0xE2, CHR 0x80, CHR 0x85],
      [CHR 0xE2, CHR 0x80, CHR 0x86], [CHR 0xE2, CHR 0x80, CHR 0x87],
      [CHR 0xE2, CHR 0x80, CHR 0x88], [CHR 0xE2, CHR 0x80, CHR 0x89],
      [CHR 0xE2, CHR 0x80, CHR 0x8A], [CHR 0xE2, CHR 0x80, CHR 0xA8],
      [CHR 0xE2, CHR 0x80, CHR 0xA9], [CHR 0xE2, CHR 0x80, CHR 0xAF],
      [CHR 0xE2, CHR 0x81, CHR 0x9F], [CHR 0xE3, CHR 0x80, CHR 0x80]]"

text \<open>The width of the white-space rune among \<open>encs\<close> at the head of \<open>s\<close>, or 0.\<close>

definition leading_width :: "string list \<Rightarrow> string \<Rightarrow> nat" where
  "leading_width encs s =
     (case filter (\<lambda>e. e \<noteq> [] \<and> take (length e) s = e) encs of
        [] \<Rightarrow> 0
      | e # _ \<Rightarrow> length e)"

function strip_leading :: "string list \<Rightarrow> string \<Rightarrow> string" where
  "strip_leading encs s =
     (if leading_width encs s = 0 then s
      else strip_leading encs (drop (leading_width encs s) s))"
  by pat_completeness auto
termination
proof (relation "measure (\<lambda>(encs, s). length s)")
  show "wf (measure (\<lambda>(encs, s). length s))"
    by simp
next
  fix encs :: "string list" and s :: string
  assume pos: "leading_width encs s \<noteq> 0"
  have "s \<noteq> []"
  proof
    assume "s = []"
    then have "filter (\<lambda>e. e \<noteq> [] \<and> take (length e) s = e) encs = []"
      by (auto simp: filter_empty_conv)
    with pos show False
      by (simp add: leading_width_def)
  qed
  with pos show "((encs, drop (leading_width encs s) s), (encs, s))
                   \<in> measure (\<lambda>(encs, s). length s)"
    by simp
qed

declare strip_leading.simps [simp del]

definition TrimSpace :: "string \<Rightarrow> string" where
  "TrimSpace s =
     rev (strip_leading (map rev unicode_spaces) (rev (strip_leading unicode_spaces s)))"

text \<open>The six ASCII white-space characters (the table \<open>asciiSpace\<close> of the library).\<close>

definition asciiSpace :: "char \<Rightarrow> bool" where
  "asciiSpace ch = (ch \<in> set [CHR 0x09, CHR 0x0A, CHR 0x0B, CHR 0x0C, CHR 0x0D, CHR 0x20])"

text \<open>
  The pattern of \<open>emailRegex\<close>,
  \<^verbatim>\<open>^[a-zA-Z0-9._%+-]+@[a-zA-Z0-9.-]+\.[a-zA-Z]{2,}$\<close>: neither character class
  holds \<open>@\<close>, and the last class holds no dot, so a match splits the text at its only
  \<open>@\<close> and at its last dot.
\<close>

definition isAlpha :: "char \<Rightarrow> bool" where
  "isAlpha ch = (let n = (of_char ch :: nat) in (65 \<le> n \<and> n \<le> 90) \<or> (97 \<le> n \<and> n \<le> 122))"

definition isDigit :: "char \<Rightarrow> bool" where
  "isDigit ch = (let n = (of_char ch :: nat) in 48 \<le> n \<and> n \<le> 57)"

definition localChar :: "char \<Rightarrow> bool" where
  "localChar ch = (isAlpha ch \<or> isDigit ch \<or> ch \<in> set ''._%+-'')"

definition domainChar :: "char \<Rightarrow> bool" where
  "domainChar ch = (isAlpha ch \<or> isDigit ch \<or> ch \<in> set ''.-'')"

definition emailRegex_MatchString :: "string \<Rightarrow> bool" where
  "emailRegex_MatchString s =
     (let l = takeWhile (\<lambda>ch. ch \<noteq> CHR ''@'') s;
          r = drop (Suc (length l)) s;
          t = rev (takeWhile (\<lambda>ch. ch \<noteq> CHR ''.'') (rev r));
          d = take (length r - Suc (length t)) r
      in CHR ''@'' \<in> set s \<and> l \<noteq> [] \<and> list_all localChar l
         \<and> CHR ''.'' \<in> set r \<and> d \<noteq> [] \<and> list_all domainChar d
         \<and> 2 \<le> length t \<and> list_all isAlpha t)"

section \<open>Players and the external collaborators\<close>

datatype AccountStatus = AccountActive | AccountSuspended | AccountBanned

text \<open>The fields of \<open>player.Player\<close> that the session driver reads or sets.\<close>

record Player =
  P_ID :: string
  Username :: string
  Email :: string
  PasswordHash :: string
  AccountStatus :: AccountStatus
  MaxCharacters :: int

text \<open>\<open>player.NewPlayer\<close>; the fresh identifier it draws is its first argument here.\<close>

definition NewPlayer :: "string \<Rightarrow> string \<Rightarrow> string \<Rightarrow> string \<Rightarrow> Player" where
  "NewPlayer uuid username email passwordHash =
     \<lparr>P_ID = uuid, Username = username, Email = email, PasswordHash = passwordHash,
      AccountStatus = AccountActive, MaxCharacters = 5\<rparr>"

definition IsActive :: "Player \<Rightarrow> bool" where
  "IsActive p = (AccountStatus p = AccountActive)"

text \<open>
  The error with which the lookups of the player store answer when no row matches
  (\<open>fmt.Errorf("player not found: %s", ...)\<close> in the store's three lookups).
\<close>

definition player_not_found :: "string \<Rightarrow> error" where
  "player_not_found key = Failure (''player not found: '' @ key)"

text \<open>
  What the driver is given: the player store (over a store state \<open>'db\<close>), the two
  \<open>bcrypt\<close> functions, the identifier drawn for a new player, and the handlers of the
  character-selection and in-game states, which work through the character store and the
  game engine. All of them are parameters: every theorem below holds for any behaviour
  of theirs. \<open>GetPlayerByEmail\<close> may succeed with a nil player, which the source tests for.
\<close>

record 'db Env =
  GetPlayerByUsername :: "'db \<Rightarrow> string \<Rightarrow> error + Player"
  GetPlayer :: "'db \<Rightarrow> string \<Rightarrow> error + Player"
  GetPlayerByEmail :: "'db \<Rightarrow> string \<Rightarrow> error + Player option"
  CreatePlayer :: "'db \<Rightarrow> Player \<Rightarrow> error option \<times> 'db"
  UpdatePlayerLogin :: "'db \<Rightarrow> string \<Rightarrow> error option \<times> 'db"
  CompareHashAndPassword :: "string \<Rightarrow> string \<Rightarrow> error option"
  GenerateFromPassword :: "string \<Rightarrow> error + string"
  uuid_New :: string
  handleCharacterSelection :: "'db \<Rightarrow> Client \<Rightarrow> string \<Rightarrow> 'db \<times> Client"
  handleGameCommand :: "'db \<Rightarrow> Client \<Rightarrow> string \<Rightarrow> 'db \<times> Client"

section \<open>Session protocol driver (SessionHandler)\<close>

text \<open>
  The handlers call \<open>client.Send\<close> and \<open>client.SendPrompt\<close> and drop the error they
  return. The lines logged with \<open>fmt.Printf\<close> go to the server's console and are left out.
\<close>

definition send :: "string \<Rightarrow> Client \<Rightarrow> Client" where
  "send message c = snd (Send message c)"

definition sendPrompt :: "string \<Rightarrow> Client \<Rightarrow> Client" where
  "sendPrompt prompt c = snd (SendPrompt prompt c)"

definition showCharacterMenu :: "Client \<Rightarrow> Client" where
  "showCharacterMenu c =
     (let c1 = send (CHR 0x0A # ''--- Character Selection ---'') c;
          c2 = send ''Commands:'' c1;
          c3 = send ''  list (l)                 - List your characters'' c2;
          c4 = send ''  select (s) <name>        - Enter game with character'' c3;
          c5 = send ''  create (c) <name> <race> <class> - Create new character'' c4;
          c6 = send ''  delete (d) <name>        - Delete character'' c5;
          c7 = send ''  quit (q)                 - Disconnect'' c6;
          c8 = send [] c7
      in sendPrompt ''Character> '' c8)"

definition handleLogin :: "'db Env \<Rightarrow> 'db \<Rightarrow> Client \<Rightarrow> string \<Rightarrow> 'db \<times> Client" where
  "handleLogin env db c username0 =
     (let username = TrimSpace username0 in
      if username = [] then
        (db, sendPrompt ''> '' (send ''Username cannot be empty. Please enter your username:'' c))
      else
        (case GetPlayerByUsername env db username of
           Inl err \<Rightarrow>
             (let c1 = SetTempUsername username c;
                  c2 = send (''New player! Creating account for: '' @ username) c1;
                  c3 = send ''Please enter your email address:'' c2;
                  c4 = sendPrompt ''Email: '' c3
              in (db, SetState StateCreatingAccount c4))
         | Inr existingPlayer \<Rightarrow>
             if \<not> IsActive existingPlayer then
               (db, Close (send ''Your account has been suspended. Please contact an administrator.'' c))
             else
               (let c1 = send ''Please enter your password:'' c;
                    c2 = SetState StateAuthenticating c1
                in (db, SetPlayerID (P_ID existingPlayer) c2))))"

definition handlePasswordAuth :: "'db Env \<Rightarrow> 'db \<Rightarrow> Client \<Rightarrow> string \<Rightarrow> 'db \<times> Client" where
  "handlePasswordAuth env db c password0 =
     (let password = TrimSpace password0 in
      if password = [] then
        (db, sendPrompt ''Password: '' (send ''Password cannot be empty. Please enter your password:'' c))
      else if playerID c = [] then
        (db, Close (send ''Account creation not fully implemented yet.'' c))
      else
        (case GetPlayer env db (playerID c) of
           Inl err \<Rightarrow> (db, Close (send ''Authentication failed.'' c))
         | Inr existingPlayer \<Rightarrow>
             (case CompareHashAndPassword env (PasswordHash existingPlayer) password of
                Some err \<Rightarrow> (db, Close (send ''Invalid password.'' c))
              | None \<Rightarrow>
                  (let db1 = snd (UpdatePlayerLogin env db (playerID c));
                       c1 = send (''Welcome back, '' @ Username existingPlayer @ ''!'') c;
                       c2 = SetState StateCharacterSelection c1
                   in (db1, showCharacterMenu c2)))))"

definition handleAccountCreation :: "'db Env \<Rightarrow> 'db \<Rightarrow> Client \<Rightarrow> string \<Rightarrow> 'db \<times> Client" where
  "handleAccountCreation env db c input0 =
     (let input = TrimSpace input0 in
      if input = [] then
        (db, sendPrompt ''Email: '' (send ''Email cannot be empty. Please enter your email address:'' c))
      else if \<not> emailRegex_MatchString input then
        (db, sendPrompt ''Email: '' (send ''Invalid email format. Please enter a valid email address:'' c))
      else
        (case GetPlayerByEmail env db input of
           Inr (Some existingPlayer) \<Rightarrow>
             (let c1 = send ''An account with this email already exists.'' c;
                  c2 = send ''Please try logging in or use a different email address.'' c1
              in (db, Close c2))
         | _ \<Rightarrow>
             (let c1 = SetTempEmail input c;
                  c2 = send ''Please choose a password (minimum 6 characters):'' c1
              in (db, SetState StateConfirmingPassword c2))))"

definition createAccount :: "'db Env \<Rightarrow> 'db \<Rightarrow> Client \<Rightarrow> 'db \<times> Client" where
  "createAccount env db c =
     (let username = tempUsername c; email = tempEmail c; password = tempPassword c in
      case GenerateFromPassword env password of
        Inl err \<Rightarrow> (db, Close (send ''Failed to create account due to internal error.'' c))
      | Inr passwordHash \<Rightarrow>
          (let newPlayer = NewPlayer (uuid_New env) username email passwordHash in
           case CreatePlayer env db newPlayer of
             (Some err, db1) \<Rightarrow>
               (db1, Close (send ''Failed to create account. Username might already be taken.'' c))
           | (None, db1) \<Rightarrow>
               (let c1 = ClearTempData c;
                    c2 = SetPlayerID (P_ID newPlayer) c1;
                    c3 = send (''Account created successfully! Welcome to DungeoGo, '' @ username @ ''!'') c2;
                    c4 = SetState StateCharacterSelection c3
                in (db1, showCharacterMenu c4))))"

definition handlePasswordConfirmation ::
    "'db Env \<Rightarrow> 'db \<Rightarrow> Client \<Rightarrow> string \<Rightarrow> 'db \<times> Client" where
  "handlePasswordConfirmation env db c password0 =
     (let password = TrimSpace password0 in
      if tempPassword c = [] then
        (if length password < 6 then
           (db, send ''Please choose a password (minimum 6 characters):''
                  (send ''Password must be at least 6 characters long.'' c))
         else
           (db, send ''Please confirm your password:'' (SetTempPassword password c)))
      else
        (let storedPassword = tempPassword c in
         if storedPassword \<noteq> password then
           (let c1 = send ''Passwords do not match.'' c;
                c2 = SetTempPassword [] c1
            in (db, send ''Please choose a password (minimum 6 characters):'' c2))
         else createAccount env db c))"

text \<open>
  The body of the loop of \<open>HandleClient\<close>: the read, in password mode in the two password
  states, and the switch on the state. No case of the switch is for \<open>StateDisconnecting\<close>.
\<close>

definition readInput :: "Client \<Rightarrow> (error + string) \<times> Client" where
  "readInput c =
     (if state c = StateAuthenticating \<or> state c = StateConfirmingPassword
      then ReadPassword c else ReadLine c)"

definition dispatch :: "'db Env \<Rightarrow> 'db \<Rightarrow> Client \<Rightarrow> string \<Rightarrow> 'db \<times> Client" where
  "dispatch env db c line =
     (case state c of
        StateConnected \<Rightarrow> handleLogin env db c line
      | StateAuthenticating \<Rightarrow> handlePasswordAuth env db c line
      | StateCreatingAccount \<Rightarrow> handleAccountCreation env db c line
      | StateConfirmingPassword \<Rightarrow> handlePasswordConfirmation env db c line
      | StateCharacterSelection \<Rightarrow> handleCharacterSelection env db c line
      | StateInGame \<Rightarrow> handleGameCommand env db c line
      | StateDisconnecting \<Rightarrow> (db, c))"

text \<open>
  The loop runs while the client is connected and ends at the first failed read. It need
  not end (the two handlers that are parameters may do anything), so it is a partial
  function: \<open>None\<close> is a loop that never ends.
\<close>

partial_function (option) HandleClient_loop ::
    "'db Env \<Rightarrow> 'db \<Rightarrow> Client \<Rightarrow> ('db \<times> Client) option" where
  "HandleClient_loop env db c =
     (if \<not> IsConnected c then Some (db, c)
      else
        (case readInput c of
           (Inl err, c1) \<Rightarrow> Some (db, c1)
         | (Inr line, c1) \<Rightarrow>
             (case dispatch env db c1 line of (db2, c2) \<Rightarrow> HandleClient_loop env db2 c2)))"

definition HandleClient :: "'db Env \<Rightarrow> 'db \<Rightarrow> Client \<Rightarrow> ('db \<times> Client) option" where
  "HandleClient env db c =
     (let c1 = send ''Welcome to DungeoGo!'' c;
          c2 = send ''Please enter your username:'' c1;
          c3 = sendPrompt ''> '' c2
      in case HandleClient_loop env db c3 of
           None \<Rightarrow> None
         | Some (db1, c4) \<Rightarrow> Some (db1, Close c4))"

section \<open>Connection registry and acceptor (ConnectionManager)\<close>

text \<open>
  The two maps hold pointers to \<open>Client\<close> records, and one record may be reached from
  both maps and by its handler. A pointer is an address, and \<open>heap\<close> gives the record at
  each address; \<open>nxt\<close> is the next address that \<open>NewClient\<close> allocates. Pointers are never
  nil. The listener, the handler, the mutex and \<open>idleTimeout\<close> are left out: the
  operations are taken one at a time, as the mutex makes them run.
\<close>

type_synonym addr = nat

record ConnectionManager =
  clients :: "string \<rightharpoonup> addr"
  playerClients :: "string \<rightharpoonup> addr"
  running :: bool
  maxClients :: int
  heap :: "addr \<Rightarrow> Client"
  nxt :: addr

text \<open>The record that fills every address before its allocation; no map points at it.\<close>

definition unallocated :: Client where
  "unallocated =
     \<lparr>ID = [], conn = \<lparr>rd = [], wlog = [], wfail = (\<lambda>_. True), closed = True\<rparr>, werr = None,
      connected = False, playerID = [], characterID = [], state = StateDisconnecting,
      tempUsername = [], tempPassword = [], tempEmail = []\<rparr>"

definition NewConnectionManager :: "int \<Rightarrow> ConnectionManager" where
  "NewConnectionManager mx =
     \<lparr>clients = Map.empty, playerClients = Map.empty, running = False, maxClients = mx,
      heap = (\<lambda>_. unallocated), nxt = 0\<rparr>"

definition getClientCount :: "ConnectionManager \<Rightarrow> int" where
  "getClientCount cm = int (card (dom (clients cm)))"

text \<open>\<open>createClient\<close>; the identifier that \<open>uuid.New()\<close> draws is an argument.\<close>

definition createClient :: "Conn \<Rightarrow> string \<Rightarrow> ConnectionManager \<Rightarrow> addr \<times> ConnectionManager" where
  "createClient k clientID cm =
     (let a = nxt cm in
      (a, cm\<lparr>heap := (heap cm)(a := NewClient clientID k),
              nxt := Suc a,
              clients := (clients cm)(clientID \<mapsto> a)\<rparr>))"

definition RemoveClient :: "string \<Rightarrow> ConnectionManager \<Rightarrow> ConnectionManager" where
  "RemoveClient clientID cm =
     (case clients cm clientID of
        None \<Rightarrow> cm
      | Some a \<Rightarrow>
          (let pc = (if playerID (heap cm a) \<noteq> []
                     then (playerClients cm)(playerID (heap cm a) := None)
                     else playerClients cm)
           in cm\<lparr>playerClients := pc,
                  heap := (heap cm)(a := Close (heap cm a)),
                  clients := (clients cm)(clientID := None)\<rparr>))"

definition GetClient :: "string \<Rightarrow> ConnectionManager \<Rightarrow> addr option" where
  "GetClient clientID cm = clients cm clientID"

definition GetPlayerClient :: "string \<Rightarrow> ConnectionManager \<Rightarrow> addr option" where
  "GetPlayerClient pid cm = playerClients cm pid"

definition RegisterPlayerClient :: "string \<Rightarrow> addr \<Rightarrow> ConnectionManager \<Rightarrow> ConnectionManager" where
  "RegisterPlayerClient pid client cm =
     (let h1 = (case playerClients cm pid of
                  Some existingClient \<Rightarrow> (heap cm)(existingClient := Close (heap cm existingClient))
                | None \<Rightarrow> heap cm)
      in cm\<lparr>playerClients := (playerClients cm)(pid \<mapsto> client),
             heap := h1(client := SetPlayerID pid (h1 client))\<rparr>)"

definition UnregisterPlayerClient :: "string \<Rightarrow> ConnectionManager \<Rightarrow> ConnectionManager" where
  "UnregisterPlayerClient pid cm = cm\<lparr>playerClients := (playerClients cm)(pid := None)\<rparr>"

definition Stop :: "ConnectionManager \<Rightarrow> ConnectionManager" where
  "Stop cm =
     cm\<lparr>running := False,
        heap := (\<lambda>a. if a \<in> ran (clients cm) then Close (heap cm a) else heap cm a)\<rparr>"

definition server_full :: string where
  "server_full = ''Server is full. Please try again later.'' @ CRLF"

text \<open>
  One round of the accept loop of \<open>Start\<close> for an accepted connection: either the
  connection is told that the server is full and closed (left), or a client is created
  for it and handed to the handler (right).
\<close>

definition accept_conn ::
    "Conn \<Rightarrow> string \<Rightarrow> ConnectionManager \<Rightarrow> (Conn + addr) \<times> ConnectionManager" where
  "accept_conn k uuid cm =
     (if getClientCount cm \<ge> maxClients cm
      then (Inl (conn_Close (snd (conn_Write server_full k))), cm)
      else (case createClient k uuid cm of (a, cm1) \<Rightarrow> (Inr a, cm1)))"

text \<open>
  The states of a running server: \<open>Start\<close> on a new manager, then accept rounds, the
  registry operations in any order, and any change that handlers and the cleanup task
  make to client records.
\<close>

inductive reachable :: "int \<Rightarrow> ConnectionManager \<Rightarrow> bool" for mx :: int where
  start: "reachable mx ((NewConnectionManager mx)\<lparr>running := True\<rparr>)"
| accept: "reachable mx cm \<Longrightarrow> reachable mx (snd (accept_conn k uuid cm))"
| remove: "reachable mx cm \<Longrightarrow> reachable mx (RemoveClient clientID cm)"
| register: "reachable mx cm \<Longrightarrow> reachable mx (RegisterPlayerClient pid a cm)"
| unregister: "reachable mx cm \<Longrightarrow> reachable mx (UnregisterPlayerClient pid cm)"
| stop: "reachable mx cm \<Longrightarrow> reachable mx (Stop cm)"
| client_step: "reachable mx cm \<Longrightarrow> reachable mx (cm\<lparr>heap := (heap cm)(a := c)\<rparr>)"

text \<open>
  A client on which every write goes through: connected, no error stuck in the writer,
  the connection open and the network never failing.
\<close>

definition healthy :: "Client \<Rightarrow> bool" where
  "healthy c = (connected c \<and> werr c = None \<and> \<not> closed (conn c) \<and> (\<forall>n. \<not> wfail (conn c) n))"

section \<open>Reference definitions from the specification's words\<close>

text \<open>
  The input with every three-byte control sequence removed: a 255 byte and the two bytes
  after it.
\<close>

function stripIAC :: "string \<Rightarrow> string" where
  "stripIAC [] = []"
| "stripIAC (b # bs) = (if b = CHR 0xFF then stripIAC (drop 2 bs) else b # stripIAC bs)"
  by pat_completeness auto
termination
  by (relation "measure length") auto

text \<open>
  The text of a password entry: of what is left, the bytes before the first newline,
  without the carriage returns.
\<close>

definition passwordContent :: "string \<Rightarrow> string" where
  "passwordContent bs =
     filter (\<lambda>b. b \<noteq> CHR 0x0D) (takeWhile (\<lambda>b. b \<noteq> CHR 0x0A) (stripIAC bs))"

section \<open>Concrete connections and collaborators for the examples\<close>

definition conn_of_input :: "string \<Rightarrow> Conn" where
  "conn_of_input bs = \<lparr>rd = bs, wlog = [], wfail = (\<lambda>_. False), closed = False\<rparr>"

text \<open>
  A password entry with a control sequence in it (whose second and third bytes are a
  newline and a carriage return), a carriage return before the newline, and input left
  after it.
\<close>

definition pw_stream :: string where
  "pw_stream = ''a'' @ [CHR 0xFF, CHR 0x0A, CHR 0x0D] @ ''b'' @ [CHR 0x0D, CHR 0x0A] @ ''zz''"

text \<open>An entry cut off by the end of the input inside a control sequence.\<close>

definition cut_stream :: string where
  "cut_stream = ''ab'' @ [CHR 0xFF, CHR 0xFD]"

text \<open>
  A player store kept as a list, which refuses a second player of the same name or
  email, with a hash that can be read, and no character selection or game; the player
  \<open>alice\<close> whose password is \<open>secret1\<close>; and clients in the states the examples start
  from: one that entered the name of \<open>alice\<close>, one that confirms the password of a new
  account \<open>alice\<close> (the store may hold that name by then, taken on another connection),
  one that is about to choose a password, one for a new account \<open>bob\<close>, one whose
  pending password is too long to hash, and one whose player is not in the store.
\<close>

definition alice :: Player where
  "alice = \<lparr>P_ID = ''player-1'', Username = ''alice'', Email = ''alice@example.com'',
            PasswordHash = ''hash:secret1'', AccountStatus = AccountActive, MaxCharacters = 5\<rparr>"

definition store_env :: "(Player list) Env" where
  "store_env =
     \<lparr>GetPlayerByUsername = (\<lambda>db u. case find (\<lambda>p. Username p = u) db of
                                       None \<Rightarrow> Inl (player_not_found u)
                                     | Some p \<Rightarrow> Inr p),
      GetPlayer = (\<lambda>db i. case find (\<lambda>p. P_ID p = i) db of
                             None \<Rightarrow> Inl (player_not_found i)
                           | Some p \<Rightarrow> Inr p),
      GetPlayerByEmail = (\<lambda>db e. case find (\<lambda>p. Email p = e) db of
                                    None \<Rightarrow> Inl (player_not_found e)
                                  | Some p \<Rightarrow> Inr (Some p)),
      CreatePlayer = (\<lambda>db p. if list_ex (\<lambda>q. Username q = Username p \<or> Email q = Email p) db
                              then (Some (Failure ''duplicate key''), db)
                              else (None, db @ [p])),
      UpdatePlayerLogin = (\<lambda>db i. (None, db)),
      CompareHashAndPassword = (\<lambda>h p. if h = ''hash:'' @ p then None
                                        else Some (Failure ''hash and password differ'')),
      GenerateFromPassword = (\<lambda>p. if length p > 72 then Inl (Failure ''password too long'')
                                    else Inr (''hash:'' @ p)),
      uuid_New = ''player-2'',
      handleCharacterSelection = (\<lambda>db c line. (db, c)),
      handleGameCommand = (\<lambda>db c line. (db, c))\<rparr>"

definition authenticating :: "string \<Rightarrow> Client" where
  "authenticating bs =
     (NewClient ''c1'' (conn_of_input bs))\<lparr>state := StateAuthenticating, playerID := ''player-1''\<rparr>"

definition confirming :: Client where
  "confirming =
     (NewClient ''c1'' (conn_of_input []))\<lparr>state := StateConfirmingPassword,
        tempUsername := ''alice'', tempEmail := ''alice@example.com'', tempPassword := ''secret1''\<rparr>"

definition choosing :: Client where
  "choosing = confirming\<lparr>tempPassword := []\<rparr>"

definition entering :: Client where
  "entering = confirming\<lparr>tempUsername := ''bob'', tempEmail := ''bob@example.com''\<rparr>"

definition overlong :: Client where
  "overlong = entering\<lparr>tempPassword := replicate 73 (CHR ''x'')\<rparr>"

definition orphaned :: Client where
  "orphaned = (authenticating [])\<lparr>playerID := ''player-9''\<rparr>"

definition blank_then_right :: string where
  "blank_then_right = ''   '' @ [CHR 0x0D, CHR 0x0A] @ ''secret1'' @ [CHR 0x0D, CHR 0x0A]"

definition wrong_then_right :: string where
  "wrong_then_right = ''hunter2'' @ [CHR 0x0D, CHR 0x0A] @ ''secret1'' @ [CHR 0x0D, CHR 0x0A]"

text \<open>
  A server started with room for two clients that has accepted the connections \<open>a\<close> and
  \<open>b\<close>; then the same player registered on the first and, after it, on the second; and
  a third connection arriving at the full server.
\<close>

definition started :: "int \<Rightarrow> ConnectionManager" where
  "started mx = (NewConnectionManager mx)\<lparr>running := True\<rparr>"

definition two_clients :: ConnectionManager where
  "two_clients =
     snd (accept_conn (conn_of_input []) ''b''
            (snd (accept_conn (conn_of_input []) ''a'' (started 2))))"

definition two_sessions :: ConnectionManager where
  "two_sessions = RegisterPlayerClient ''p'' 1 (RegisterPlayerClient ''p'' 0 two_clients)"

definition three_accepts :: "(Conn + addr) \<times> ConnectionManager" where
  "three_accepts = accept_conn (conn_of_input []) ''c'' two_clients"

section \<open>Password-mode reads\<close>

lemma ReadByte_Nil: "ReadByte [] = (Inl EOF, [])"
  by (simp add: ReadByte_def)

lemma ReadByte_Cons: "ReadByte (b # r) = (Inr b, r)"
  by (simp add: ReadByte_def)

lemma skip_two: "snd (ReadByte (snd (ReadByte bs))) = drop 2 bs"
  by (cases bs; cases "tl bs") (auto simp: ReadByte_def)

lemma ReadPassword_loop_Nil [simp]: "ReadPassword_loop [] line = (Inl EOF, [])"
  by (subst ReadPassword_loop.simps) (simp add: ReadByte_Nil)

lemma ReadPassword_loop_Cons [simp]:
  "ReadPassword_loop (b # r) line =
     (if b = CHR 0xFF then ReadPassword_loop (drop 2 r) line
      else if b = CHR 0x0A then (Inr line, r)
      else if b = CHR 0x0D then ReadPassword_loop r line
      else ReadPassword_loop r (line @ string_of_byte b))"
  by (subst ReadPassword_loop.simps) (simp add: ReadByte_Cons skip_two)

lemma ReadPassword_loop_result:
  "fst (ReadPassword_loop bs line) =
     (if CHR 0x0A \<in> set (stripIAC bs)
      then Inr (line @ concat (map string_of_byte (passwordContent bs)))
      else Inl EOF)"
  by (induction bs arbitrary: line rule: stripIAC.induct) (auto simp: passwordContent_def)

lemma ReadPassword_loop_error: "fst (ReadPassword_loop bs line) = Inl err \<Longrightarrow> err = EOF"
  by (simp add: ReadPassword_loop_result split: if_splits)

lemma stripIAC_no_IAC: "CHR 0xFF \<notin> set (stripIAC bs)"
  by (induction bs rule: stripIAC.induct) auto

lemma passwordContent_bytes:
  "CHR 0xFF \<notin> set (passwordContent bs) \<and> CHR 0x0D \<notin> set (passwordContent bs)
   \<and> CHR 0x0A \<notin> set (passwordContent bs)"
  using stripIAC_no_IAC[of bs] set_takeWhileD[of _ "\<lambda>b. b \<noteq> CHR 0x0A" "stripIAC bs"]
  by (auto simp: passwordContent_def)

lemma string_of_byte_7bit: "(of_char b :: nat) < 128 \<Longrightarrow> string_of_byte b = [b]"
  by (simp add: string_of_byte_def)

lemma char_of_neq:
  assumes "n < 256" and "n \<noteq> of_char ch"
  shows "char_of (n::nat) \<noteq> ch"
proof
  assume "char_of n = ch"
  then have "(of_char (char_of n :: char) :: nat) = of_char ch" by simp
  with assms show False by simp
qed

lemma of_char_char_of_small: "n < 256 \<Longrightarrow> (of_char (char_of (n::nat) :: char) :: nat) = n"
  by (simp only: of_char_of mod_less)

lemma high_parts:
  fixes n :: nat
  assumes "n < 256"
  shows "192 + n div 64 < 196" and "128 + n mod 64 < 192"
proof -
  have "n div 64 < 4" using assms by (simp add: less_mult_imp_div_less)
  then show "192 + n div 64 < 196" by simp
  have "n mod 64 < 64" by simp
  then show "128 + n mod 64 < 192" by simp
qed

lemma string_of_byte_high:
  assumes "\<not> (of_char b :: nat) < 128" and "x \<in> set (string_of_byte b)"
  shows "128 \<le> (of_char x :: nat) \<and> (of_char x :: nat) < 196"
proof -
  let ?n = "of_char b :: nat"
  have lt: "?n < 256" by simp
  have a: "(of_char (char_of (192 + ?n div 64) :: char) :: nat) = 192 + ?n div 64"
    using high_parts(1)[OF lt] by (intro of_char_char_of_small) simp
  have b: "(of_char (char_of (128 + ?n mod 64) :: char) :: nat) = 128 + ?n mod 64"
    using high_parts(2)[OF lt] by (intro of_char_char_of_small) simp
  from assms have "x = char_of (192 + ?n div 64) \<or> x = char_of (128 + ?n mod 64)"
    by (simp add: string_of_byte_def)
  then show ?thesis
  proof
    assume "x = char_of (192 + ?n div 64)"
    then have "(of_char x :: nat) = 192 + ?n div 64" using a by simp
    then show ?thesis using high_parts(1)[OF lt] by simp
  next
    assume "x = char_of (128 + ?n mod 64)"
    then have "(of_char x :: nat) = 128 + ?n mod 64" using b by simp
    then show ?thesis using high_parts(2)[OF lt] by simp
  qed
qed

lemma string_of_byte_keeps:
  assumes "b \<noteq> CHR 0xFF" and "b \<noteq> CHR 0x0D"
  shows "CHR 0xFF \<notin> set (string_of_byte b) \<and> CHR 0x0D \<notin> set (string_of_byte b)"
proof (cases "(of_char b :: nat) < 128")
  case True
  with assms show ?thesis by (simp add: string_of_byte_7bit)
next
  case False
  then show ?thesis using string_of_byte_high[OF False, of "CHR 0xFF"] string_of_byte_high[OF False, of "CHR 0x0D"]
    by auto
qed

lemma ReadPassword_line:
  assumes "ReadPassword c = (Inr line, c')"
  shows "line = concat (map string_of_byte (passwordContent (rd (conn c))))"
  using assms ReadPassword_loop_result[of "rd (conn c)" "[]"]
  by (auto simp: ReadPassword_def client_conn_Write_def conn_Write_def set_rd_def
           split: prod.splits option.splits sum.splits if_splits)

lemma concat_string_of_byte_7bit:
  "\<forall>b \<in> set p. (of_char b :: nat) < 128 \<Longrightarrow> concat (map string_of_byte p) = p"
  by (induction p) (simp_all add: string_of_byte_7bit)

lemma concat_string_of_byte_keeps:
  "CHR 0xFF \<notin> set p \<Longrightarrow> CHR 0x0D \<notin> set p \<Longrightarrow>
   CHR 0xFF \<notin> set (concat (map string_of_byte p)) \<and> CHR 0x0D \<notin> set (concat (map string_of_byte p))"
proof (induction p)
  case Nil
  show ?case by simp
next
  case (Cons b p)
  from Cons.prems have "b \<noteq> CHR 0xFF" and "b \<noteq> CHR 0x0D" by auto
  from string_of_byte_keeps[OF this] Cons show ?case by simp
qed


lemma pw_stream_content: "passwordContent pw_stream = ''ab''"
  by (simp add: pw_stream_def passwordContent_def)

lemma NewClient_conn: "rd (conn (NewClient i (conn_of_input bs))) = bs"
  by (simp add: NewClient_def conn_of_input_def)

lemma ReadPassword_pw_stream:
  "fst (ReadPassword (NewClient ''c1'' (conn_of_input pw_stream))) = Inr ''ab''"
  by (simp add: ReadPassword_def client_conn_Write_def conn_Write_def NewClient_def
      conn_of_input_def set_rd_def writer_WriteFlush_def pw_stream_def string_of_byte_def)

lemma string_of_byte_E9: "string_of_byte (CHR 0xE9) = [CHR 0xC3, CHR 0xA9]"
  by code_simp

lemma ReadPassword_content:
  assumes "ReadPassword c = (Inr line, c')"
  shows "line = concat (map string_of_byte (passwordContent (rd (conn c))))
         \<and> CHR 0xFF \<notin> set line \<and> CHR 0x0D \<notin> set line \<and>
         ((\<forall>b \<in> set (passwordContent (rd (conn c))). (of_char b :: nat) < 128)
            \<longrightarrow> line = passwordContent (rd (conn c)))"
proof -
  have line: "line = concat (map string_of_byte (passwordContent (rd (conn c))))"
    using assms by (rule ReadPassword_line)
  have "CHR 0xFF \<notin> set (passwordContent (rd (conn c)))"
   and "CHR 0x0D \<notin> set (passwordContent (rd (conn c)))"
    using passwordContent_bytes[of "rd (conn c)"] by simp_all
  from concat_string_of_byte_keeps[OF this]
  have no: "CHR 0xFF \<notin> set line \<and> CHR 0x0D \<notin> set line"
    unfolding line .
  have exact: "(\<forall>b \<in> set (passwordContent (rd (conn c))). (of_char b :: nat) < 128)
                 \<longrightarrow> line = passwordContent (rd (conn c))"
    unfolding line using concat_string_of_byte_7bit by blast
  from line no exact show ?thesis by blast
qed

text \<open>
  Claim C5 on the code. The entry is the one byte \<open>0xE9\<close> before the newline. The line
  that \<open>ReadPassword\<close> returns is not that byte but the two bytes \<open>0xC3 0xA9\<close>: the loop
  appends \<open>string(char)\<close>, which for a byte is the UTF-8 encoding of the code point of that
  number. \<open>ReadLine\<close> returns the byte as it came. (For the rest of the claim see
  \<open>ReadPassword_content\<close>: the control sequences and the carriage returns are left out,
  and an entry of bytes below 128 is returned exactly.)
\<close>

theorem ReadPassword_transcodes_high_byte:
  "fst (ReadPassword (NewClient ''c1'' (conn_of_input [CHR 0xE9, CHR 0x0A])))
     = Inr [CHR 0xC3, CHR 0xA9]
   \<and> passwordContent [CHR 0xE9, CHR 0x0A] = [CHR 0xE9]
   \<and> fst (ReadLine (NewClient ''c1'' (conn_of_input [CHR 0xE9, CHR 0x0A]))) = Inr [CHR 0xE9]"
  by (simp add: ReadPassword_def client_conn_Write_def conn_Write_def NewClient_def
      conn_of_input_def set_rd_def writer_WriteFlush_def string_of_byte_E9 passwordContent_def
      ReadLine_def ReadString_nl_def)

text \<open>
  Claim C6. If \<open>ReadPassword\<close> returns an error after the echo-suppression sequence
  \<open>255, 251, 1\<close> went out, then the write of the echo-restoring sequence \<open>255, 252, 1\<close> is
  the next and last write on the connection: it was made before the error came back,
  on the failed read and on every other way out with an error. (The write succeeds
  unless the network fails it.)
\<close>

theorem ReadPassword_restores_echo:
  assumes "ReadPassword c = (Inl err, c')"
      and "fst (client_conn_Write IAC_WILL_ECHO c) = None"
  shows "wlog (conn c') = wlog (conn c) @
           [(IAC_WILL_ECHO, True),
            (IAC_WONT_ECHO, \<not> wfail (conn c) (Suc (length (wlog (conn c)))))]"
  using assms
  by (auto simp: ReadPassword_def client_conn_Write_def conn_Write_def set_rd_def
           split: prod.splits option.splits sum.splits if_splits)

theorem ReadPassword_restores_echo_witness:
  "fst (ReadPassword (NewClient ''c1'' (conn_of_input cut_stream))) = Inl EOF
   \<and> fst (client_conn_Write IAC_WILL_ECHO (NewClient ''c1'' (conn_of_input cut_stream))) = None
   \<and> wlog (conn (snd (ReadPassword (NewClient ''c1'' (conn_of_input cut_stream))))) =
       [(IAC_WILL_ECHO, True), (IAC_WONT_ECHO, True)]"
proof -
  let ?c = "NewClient ''c1'' (conn_of_input cut_stream)"
  have emitted: "fst (client_conn_Write IAC_WILL_ECHO ?c) = None"
    by (simp add: client_conn_Write_def conn_Write_def NewClient_def conn_of_input_def)
  have failed: "fst (ReadPassword ?c) = Inl EOF"
    by (simp add: ReadPassword_def client_conn_Write_def conn_Write_def NewClient_def
        conn_of_input_def set_rd_def string_of_byte_def cut_stream_def)
  then have run: "ReadPassword ?c = (Inl EOF, snd (ReadPassword ?c))"
    by (simp add: prod_eq_iff)
  show ?thesis
    using ReadPassword_restores_echo[OF run emitted] emitted failed
    by (simp add: NewClient_def conn_of_input_def)
qed

section \<open>The registry\<close>

lemma Close_connected [simp]: "connected (Close c) = False"
  by (simp add: Close_def)

lemma Close_idem [simp]: "Close (Close c) = Close c"
  by (simp add: Close_def)

lemma Close_playerID [simp]: "playerID (Close c) = playerID c"
  by (simp add: Close_def)

lemma two_clients_eq:
  "two_clients =
     \<lparr>clients = [''a'' \<mapsto> 0, ''b'' \<mapsto> 1], playerClients = Map.empty, running = True,
      maxClients = 2,
      heap = (\<lambda>_. unallocated)(0 := NewClient ''a'' (conn_of_input []),
                                   1 := NewClient ''b'' (conn_of_input [])),
      nxt = 2\<rparr>"
  by (simp add: two_clients_def started_def accept_conn_def getClientCount_def createClient_def
      NewConnectionManager_def)

lemma two_clients_reachable: "reachable 2 two_clients"
  unfolding two_clients_def started_def by (intro reachable.accept reachable.start)

lemma two_sessions_reachable: "reachable 2 two_sessions"
  unfolding two_sessions_def by (intro reachable.register two_clients_reachable)

lemma createClient_clients:
  "clients (snd (createClient k u cm)) = (clients cm)(u \<mapsto> nxt cm)"
  "maxClients (snd (createClient k u cm)) = maxClients cm"
  by (simp_all add: createClient_def Let_def)

lemma accept_conn_snd:
  "snd (accept_conn k u cm) =
     (if getClientCount cm \<ge> maxClients cm then cm else snd (createClient k u cm))"
  by (simp add: accept_conn_def split: prod.splits)

lemma RemoveClient_clients:
  "dom (clients (RemoveClient i cm)) = dom (clients cm) - {i}"
  "maxClients (RemoveClient i cm) = maxClients cm"
  by (auto simp: RemoveClient_def Let_def split: option.splits if_splits)

lemma reachable_inv:
  "reachable mx cm \<Longrightarrow>
     finite (dom (clients cm)) \<and> maxClients cm = mx \<and> getClientCount cm \<le> max 0 mx"
proof (induction rule: reachable.induct)
  case start
  show ?case by (simp add: NewConnectionManager_def getClientCount_def)
next
  case (accept cm k uuid)
  show ?case
  proof (cases "getClientCount cm \<ge> maxClients cm")
    case True
    with accept.IH show ?thesis by (simp add: accept_conn_snd)
  next
    case False
    let ?cm' = "snd (accept_conn k uuid cm)"
    have eq: "?cm' = snd (createClient k uuid cm)"
      using False by (simp add: accept_conn_snd)
    have d: "dom (clients ?cm') = insert uuid (dom (clients cm))"
      by (simp add: eq createClient_clients)
    have m: "maxClients ?cm' = mx"
      using accept.IH by (simp add: eq createClient_clients)
    have "card (insert uuid (dom (clients cm))) \<le> Suc (card (dom (clients cm)))"
      using accept.IH by (simp add: card_insert_if)
    then have "getClientCount ?cm' \<le> getClientCount cm + 1"
      unfolding getClientCount_def d by simp
    moreover have "getClientCount cm < mx"
      using False accept.IH by simp
    ultimately have "getClientCount ?cm' \<le> max 0 mx"
      by simp
    moreover have "finite (dom (clients ?cm'))"
      unfolding d using accept.IH by simp
    ultimately show ?thesis
      using m by simp
  qed
next
  case (remove cm clientID)
  have "card (dom (clients cm) - {clientID}) \<le> card (dom (clients cm))"
    using remove.IH by (simp add: card_Diff1_le)
  with remove.IH show ?case
    by (simp add: RemoveClient_clients getClientCount_def)
next
  case (register cm pid a)
  then show ?case by (simp add: RegisterPlayerClient_def getClientCount_def Let_def)
next
  case (unregister cm pid)
  then show ?case by (simp add: UnregisterPlayerClient_def getClientCount_def)
next
  case (stop cm)
  then show ?case by (simp add: Stop_def getClientCount_def)
next
  case (client_step cm a c)
  then show ?case by (simp add: getClientCount_def)
qed

lemma first_session:
  "playerClients (RegisterPlayerClient ''p'' 0 two_clients) ''p'' = Some 0
   \<and> connected (heap (RegisterPlayerClient ''p'' 0 two_clients) 0)"
  by (simp add: two_clients_eq RegisterPlayerClient_def SetPlayerID_def NewClient_def)

text \<open>
  Claim C7. In every state of a server started with a maximum \<open>mx\<close> that is not negative,
  the connection-id map holds at most \<open>mx\<close> entries; and when it holds \<open>maxClients\<close>
  entries, a round of the accept loop changes nothing in the manager, so the accepted
  connection gets no entry, and that connection is closed after one more write, of the
  capacity message. (Only the accept loop adds entries, so the other tasks, which are
  interleaved in \<open>reachable\<close>, can only lower the count between its check and its insert.)
\<close>

theorem acceptor_bound:
  assumes "reachable mx cm" and "0 \<le> mx"
  shows "getClientCount cm \<le> mx \<and> maxClients cm = mx \<and>
         (getClientCount cm \<ge> maxClients cm \<longrightarrow>
            snd (accept_conn k uuid cm) = cm \<and>
            (\<exists>k'. fst (accept_conn k uuid cm) = Inl k' \<and> closed k' \<and>
                  map fst (wlog k') = map fst (wlog k) @ [server_full]))"
  using reachable_inv[OF assms(1)] assms(2)
  by (auto simp: accept_conn_def conn_Write_def conn_Close_def)

theorem acceptor_bound_witness:
  "getClientCount two_clients = 2 \<and> maxClients two_clients = 2
   \<and> snd three_accepts = two_clients
   \<and> fst three_accepts =
       Inl \<lparr>rd = [], wlog = [(server_full, True)], wfail = (\<lambda>_. False), closed = True\<rparr>"
proof -
  have count: "getClientCount two_clients = 2"
    by (simp add: two_clients_eq getClientCount_def)
  have mx: "maxClients two_clients = 2"
    by (simp add: two_clients_eq)
  have third: "fst three_accepts =
      Inl \<lparr>rd = [], wlog = [(server_full, True)], wfail = (\<lambda>_. False), closed = True\<rparr>"
    by (simp add: three_accepts_def accept_conn_def count mx conn_Write_def conn_Close_def
        conn_of_input_def)
  show ?thesis
    using acceptor_bound[OF two_clients_reachable, of "conn_of_input []" "''c''"] count mx third
    by (simp add: three_accepts_def)
qed

text \<open>
  Claim C1. \<open>RegisterPlayerClient pid c\<close> leaves \<open>c\<close> as the entry of \<open>pid\<close>, the only
  one, with \<open>pid\<close> as the player id of \<open>c\<close>; a record \<open>c0\<close> that the map held for \<open>pid\<close>
  has been closed first, so it is not connected afterwards (also when \<open>c0\<close> is \<open>c\<close>
  itself). The entries of other players and the connection-id map are as before.
\<close>

theorem RegisterPlayerClient_one_per_player:
  "playerClients (RegisterPlayerClient pid c cm) pid = Some c
   \<and> playerID (heap (RegisterPlayerClient pid c cm) c) = pid
   \<and> (\<forall>c0. playerClients cm pid = Some c0 \<longrightarrow>
         \<not> connected (heap (RegisterPlayerClient pid c cm) c0)
         \<and> heap (RegisterPlayerClient pid c cm) c0 =
             (if c0 = c then SetPlayerID pid (Close (heap cm c0)) else Close (heap cm c0)))
   \<and> (\<forall>a. playerClients (RegisterPlayerClient pid c cm) pid = Some a \<longrightarrow> a = c)
   \<and> (\<forall>q. q \<noteq> pid \<longrightarrow> playerClients (RegisterPlayerClient pid c cm) q = playerClients cm q)
   \<and> clients (RegisterPlayerClient pid c cm) = clients cm"
  by (auto simp: RegisterPlayerClient_def SetPlayerID_def Let_def split: option.splits)

theorem RegisterPlayerClient_one_per_player_witness:
  "playerClients (RegisterPlayerClient ''p'' 0 two_clients) ''p'' = Some 0
   \<and> connected (heap (RegisterPlayerClient ''p'' 0 two_clients) 0)
   \<and> \<not> connected (heap two_sessions 0)
   \<and> playerClients two_sessions ''p'' = Some 1
   \<and> playerID (heap two_sessions 1) = ''p''
   \<and> connected (heap two_sessions 1)"
proof -
  have live: "connected (heap two_sessions 1)"
    by (simp add: two_sessions_def two_clients_eq RegisterPlayerClient_def SetPlayerID_def
        NewClient_def Close_def)
  show ?thesis
    using RegisterPlayerClient_one_per_player[of "''p''" 1 "RegisterPlayerClient ''p'' 0 two_clients"]
      first_session live
    by (simp add: two_sessions_def)
qed

text \<open>
  Claim C2 on the code. Player \<open>p\<close> is registered on connection \<open>a\<close> and then on \<open>b\<close>, which
  closes the first record and leaves the entry of \<open>p\<close> pointing at the second.
  \<open>RemoveClient\<close> of \<open>a\<close> then deletes that entry, though it points at the other, newer
  record, which is still connected and still in the connection-id map.
\<close>

theorem RemoveClient_drops_newer_registration:
  "clients two_sessions ''a'' = Some 0 \<and> clients two_sessions ''b'' = Some 1
   \<and> playerClients two_sessions ''p'' = Some 1
   \<and> playerID (heap two_sessions 0) = ''p''
   \<and> connected (heap two_sessions 1)
   \<and> playerClients (RemoveClient ''a'' two_sessions) ''p'' = None
   \<and> clients (RemoveClient ''a'' two_sessions) ''b'' = Some 1
   \<and> connected (heap (RemoveClient ''a'' two_sessions) 1)"
  by (simp add: two_sessions_def two_clients_eq RegisterPlayerClient_def SetPlayerID_def
      NewClient_def Close_def RemoveClient_def)

lemma RemoveClient_idempotent: "RemoveClient i (RemoveClient i cm) = RemoveClient i cm"
  by (simp add: RemoveClient_def Let_def split: option.splits)

lemma RemoveClient_effect:
  assumes "clients cm i = Some a"
  shows "clients (RemoveClient i cm) = (clients cm)(i := None)"
    and "heap (RemoveClient i cm) = (heap cm)(a := Close (heap cm a))"
    and "playerClients (RemoveClient i cm) =
           (if playerID (heap cm a) \<noteq> [] then (playerClients cm)(playerID (heap cm a) := None)
            else playerClients cm)"
  using assms by (simp_all add: RemoveClient_def Let_def)

section \<open>Trimming\<close>

lemma asciiSpace_cases:
  assumes "asciiSpace w"
  obtains "w = CHR 0x09" | "w = CHR 0x0A" | "w = CHR 0x0B" | "w = CHR 0x0C" | "w = CHR 0x0D"
    | "w = CHR 0x20"
  using assms by (auto simp: asciiSpace_def)

lemma leading_width_ascii:
  assumes "asciiSpace w"
  shows "leading_width unicode_spaces (w # s) = 1"
  using assms
  by (cases rule: asciiSpace_cases) (simp_all add: leading_width_def unicode_spaces_def)

lemma leading_width_rev_ascii:
  assumes "asciiSpace w"
  shows "leading_width (map rev unicode_spaces) (w # s) = 1"
  using assms
  by (cases rule: asciiSpace_cases) (simp_all add: leading_width_def unicode_spaces_def)

lemma leading_width_Nil: "leading_width encs [] = 0"
proof -
  have "filter (\<lambda>e. e \<noteq> [] \<and> take (length e) [] = e) encs = []"
    by (auto simp: filter_empty_conv)
  then show ?thesis by (simp add: leading_width_def)
qed

lemma strip_leading_Nil: "strip_leading encs [] = []"
  by (subst strip_leading.simps) (simp add: leading_width_Nil)

lemma take_eq_length: "take (length e) s = e \<Longrightarrow> length e \<le> length s"
proof -
  assume "take (length e) s = e"
  then have "length (take (length e) s) = length e" by simp
  then show ?thesis by simp
qed

lemma strip_leading_ascii:
  assumes "asciiSpace w"
  shows "strip_leading unicode_spaces (w # s) = strip_leading unicode_spaces s"
    and "strip_leading (map rev unicode_spaces) (w # s) = strip_leading (map rev unicode_spaces) s"
  by (subst strip_leading.simps, simp add: leading_width_ascii[OF assms],
      subst strip_leading.simps, simp add: leading_width_rev_ascii[OF assms])

lemma TrimSpace_Cons: "asciiSpace w \<Longrightarrow> TrimSpace (w # s) = TrimSpace s"
  by (simp add: TrimSpace_def strip_leading_ascii)

lemma leading_width_le: "leading_width encs s \<le> length s"
proof (cases "filter (\<lambda>e. e \<noteq> [] \<and> take (length e) s = e) encs")
  case Nil
  then show ?thesis by (simp add: leading_width_def)
next
  case (Cons e es)
  then have "e \<in> set (filter (\<lambda>e. e \<noteq> [] \<and> take (length e) s = e) encs)" by simp
  then have "take (length e) s = e" by simp
  then have "length e \<le> length s"
    by (rule take_eq_length)
  with Cons show ?thesis by (simp add: leading_width_def)
qed

lemma multibyte_ends_high_all:
  "\<forall>e \<in> set unicode_spaces. length e = 1 \<or> \<not> asciiSpace (last e)"
  by (simp add: unicode_spaces_def asciiSpace_def)

lemma multibyte_ends_high:
  "e \<in> set unicode_spaces \<Longrightarrow> length e = 1 \<or> \<not> asciiSpace (last e)"
  using multibyte_ends_high_all by (rule bspec)

lemma match_snoc:
  assumes ne: "s \<noteq> []" and w: "asciiSpace w" and e: "e \<in> set unicode_spaces"
  shows "(take (length e) (s @ [w]) = e) = (take (length e) s = e)"
proof (cases "length e \<le> length s")
  case True
  then show ?thesis by simp
next
  case False
  then have long: "length s < length e" by simp
  have "take (length e) s \<noteq> e"
  proof
    assume "take (length e) s = e"
    then have "length e \<le> length s" by (rule take_eq_length)
    with long show False by simp
  qed
  moreover have "take (length e) (s @ [w]) \<noteq> e"
  proof
    assume eq: "take (length e) (s @ [w]) = e"
    from long have "take (length e) (s @ [w]) = s @ [w]" by simp
    with eq have e_eq: "e = s @ [w]" by simp
    then have "last e = w" and "length e \<noteq> 1" using ne by auto
    with multibyte_ends_high[OF e] w show False by simp
  qed
  ultimately show ?thesis by simp
qed

lemma leading_width_snoc:
  assumes "s \<noteq> []" and "asciiSpace w"
  shows "leading_width unicode_spaces (s @ [w]) = leading_width unicode_spaces s"
proof -
  have "filter (\<lambda>e. e \<noteq> [] \<and> take (length e) (s @ [w]) = e) unicode_spaces
          = filter (\<lambda>e. e \<noteq> [] \<and> take (length e) s = e) unicode_spaces"
    by (rule filter_cong[OF refl]) (simp only: match_snoc[OF assms])
  then show ?thesis by (simp only: leading_width_def)
qed

lemma strip_leading_snoc:
  assumes w: "asciiSpace w"
  shows "strip_leading unicode_spaces (s @ [w])
           = (if strip_leading unicode_spaces s = [] then []
              else strip_leading unicode_spaces s @ [w])"
proof (induction s rule: length_induct)
  case (1 s)
  show ?case
  proof (cases "s = []")
    case True
    then show ?thesis by (simp add: strip_leading_ascii[OF w] strip_leading_Nil)
  next
    case False
    let ?n = "leading_width unicode_spaces s"
    have n: "leading_width unicode_spaces (s @ [w]) = ?n"
      using False w by (rule leading_width_snoc)
    show ?thesis
    proof (cases "?n = 0")
      case True
      have "strip_leading unicode_spaces (s @ [w]) = s @ [w]"
        by (subst strip_leading.simps) (simp add: n True)
      moreover have "strip_leading unicode_spaces s = s"
        by (subst strip_leading.simps) (simp add: True)
      ultimately show ?thesis using False by simp
    next
      case pos: False
      have le: "?n \<le> length s" by (rule leading_width_le)
      have "strip_leading unicode_spaces (s @ [w])
              = strip_leading unicode_spaces (drop ?n (s @ [w]))"
        by (subst strip_leading.simps) (simp add: n pos)
      also have "drop ?n (s @ [w]) = drop ?n s @ [w]"
        using le by simp
      also have "strip_leading unicode_spaces (drop ?n s @ [w])
              = (if strip_leading unicode_spaces (drop ?n s) = [] then []
                 else strip_leading unicode_spaces (drop ?n s) @ [w])"
        using 1 pos False by simp
      also have "strip_leading unicode_spaces (drop ?n s) = strip_leading unicode_spaces s"
        by (subst (2) strip_leading.simps) (simp add: pos)
      finally show ?thesis .
    qed
  qed
qed

lemma TrimSpace_snoc: "asciiSpace w \<Longrightarrow> TrimSpace (s @ [w]) = TrimSpace s"
  by (simp add: TrimSpace_def strip_leading_snoc strip_leading_ascii)

lemma TrimSpace_leading: "list_all asciiSpace ws \<Longrightarrow> TrimSpace (ws @ s) = TrimSpace s"
  by (induction ws) (simp_all add: TrimSpace_Cons)

lemma TrimSpace_trailing: "list_all asciiSpace ws \<Longrightarrow> TrimSpace (s @ ws) = TrimSpace s"
proof (induction ws rule: rev_induct)
  case Nil
  show ?case by simp
next
  case (snoc w ws)
  from snoc.prems have w: "asciiSpace w" and ws: "list_all asciiSpace ws" by simp_all
  have "TrimSpace (s @ ws @ [w]) = TrimSpace ((s @ ws) @ [w])" by simp
  also have "\<dots> = TrimSpace (s @ ws)" using w by (rule TrimSpace_snoc)
  also have "\<dots> = TrimSpace s" using ws by (rule snoc.IH)
  finally show ?case .
qed

lemma TrimSpace_padding:
  "list_all asciiSpace ws1 \<Longrightarrow> list_all asciiSpace ws2 \<Longrightarrow> TrimSpace (ws1 @ p @ ws2) = TrimSpace p"
  by (simp add: TrimSpace_leading TrimSpace_trailing)

section \<open>The session driver\<close>

lemma writer_WriteFlush_frame:
  "writer_WriteFlush s c = (r, c') \<Longrightarrow>
     c' = c\<lparr>conn := conn c', werr := werr c'\<rparr> \<and> rd (conn c') = rd (conn c)
     \<and> closed (conn c') = closed (conn c) \<and> wfail (conn c') = wfail (conn c)"
  by (auto simp: writer_WriteFlush_def conn_Write_def split: option.splits if_splits)

lemma send_record:
  "send m c = c\<lparr>conn := conn (send m c), werr := werr (send m c)\<rparr>"
  using writer_WriteFlush_frame[of "m @ CRLF" c "fst (writer_WriteFlush (m @ CRLF) c)"
          "snd (writer_WriteFlush (m @ CRLF) c)"]
  by (auto simp: send_def Send_def)

lemma send_conn [simp]:
  "rd (conn (send m c)) = rd (conn c)"
  "closed (conn (send m c)) = closed (conn c)"
  "wfail (conn (send m c)) = wfail (conn c)"
  using writer_WriteFlush_frame[of "m @ CRLF" c "fst (writer_WriteFlush (m @ CRLF) c)"
          "snd (writer_WriteFlush (m @ CRLF) c)"]
  by (auto simp: send_def Send_def)

lemma send_fields [simp]:
  "connected (send m c) = connected c" "state (send m c) = state c"
  "playerID (send m c) = playerID c" "characterID (send m c) = characterID c"
  "tempUsername (send m c) = tempUsername c" "tempPassword (send m c) = tempPassword c"
  "tempEmail (send m c) = tempEmail c" "ID (send m c) = ID c"
  by (auto simp: send_def Send_def writer_WriteFlush_def conn_Write_def split: option.splits)

lemma send_log:
  "connected c \<Longrightarrow> werr c = None \<Longrightarrow>
     map fst (wlog (conn (send m c))) = map fst (wlog (conn c)) @ [m @ CRLF]"
  by (auto simp: send_def Send_def writer_WriteFlush_def conn_Write_def)

lemma send_restore:
  "(send m c)\<lparr>conn := k, werr := w\<rparr> = c\<lparr>conn := k, werr := w\<rparr>"
  by (auto simp: send_def Send_def writer_WriteFlush_def conn_Write_def split: option.splits)

lemma sendPrompt_fields [simp]:
  "connected (sendPrompt m c) = connected c" "state (sendPrompt m c) = state c"
  "playerID (sendPrompt m c) = playerID c" "characterID (sendPrompt m c) = characterID c"
  "tempUsername (sendPrompt m c) = tempUsername c" "tempPassword (sendPrompt m c) = tempPassword c"
  "tempEmail (sendPrompt m c) = tempEmail c" "ID (sendPrompt m c) = ID c"
  "rd (conn (sendPrompt m c)) = rd (conn c)" "closed (conn (sendPrompt m c)) = closed (conn c)"
  by (auto simp: sendPrompt_def SendPrompt_def writer_WriteFlush_def conn_Write_def
      split: option.splits)

lemma showCharacterMenu_fields [simp]:
  "connected (showCharacterMenu c) = connected c" "state (showCharacterMenu c) = state c"
  "playerID (showCharacterMenu c) = playerID c" "characterID (showCharacterMenu c) = characterID c"
  "tempUsername (showCharacterMenu c) = tempUsername c"
  "tempPassword (showCharacterMenu c) = tempPassword c"
  "tempEmail (showCharacterMenu c) = tempEmail c" "ID (showCharacterMenu c) = ID c"
  "rd (conn (showCharacterMenu c)) = rd (conn c)"
  "closed (conn (showCharacterMenu c)) = closed (conn c)"
  by (simp_all add: showCharacterMenu_def)

lemma Close_fields [simp]:
  "playerID (Close c) = playerID c" "characterID (Close c) = characterID c"
  "tempUsername (Close c) = tempUsername c" "tempPassword (Close c) = tempPassword c"
  "tempEmail (Close c) = tempEmail c" "ID (Close c) = ID c" "werr (Close c) = werr c"
  "rd (conn (Close c)) = rd (conn c)" "wlog (conn (Close c)) = wlog (conn c)"
  "connected (Close c) = False"
  by (auto simp: Close_def conn_Close_def)

lemma Close_connected_client:
  "connected c \<Longrightarrow> state (Close c) = StateDisconnecting \<and> closed (conn (Close c))"
  by (simp add: Close_def conn_Close_def)

lemma SetState_fields [simp]:
  "state (SetState s c) = s" "connected (SetState s c) = connected c"
  "tempUsername (SetState s c) = tempUsername c" "conn (SetState s c) = conn c"
  "playerID (SetState s c) = playerID c"
  by (simp_all add: SetState_def)

lemma SetTempPassword_healthy [simp]: "healthy (SetTempPassword p c) = healthy c"
  by (simp add: healthy_def SetTempPassword_def)

lemma SetTempPassword_wlog [simp]: "wlog (conn (SetTempPassword p c)) = wlog (conn c)"
  by (simp add: SetTempPassword_def)

lemma send_healthy:
  assumes "healthy c"
  shows "healthy (send m c)" and "wlog (conn (send m c)) = wlog (conn c) @ [(m @ CRLF, True)]"
  using assms
  by (auto simp: healthy_def send_def Send_def writer_WriteFlush_def conn_Write_def)

lemma ReadPassword_frame:
  "ReadPassword c = (r, c1) \<Longrightarrow> c1 = c\<lparr>conn := conn c1, werr := werr c1\<rparr>"
  by (auto simp: ReadPassword_def client_conn_Write_def conn_Write_def set_rd_def
        writer_WriteFlush_def
      split: prod.splits option.splits sum.splits if_splits)

lemma ReadPassword_fields:
  assumes "ReadPassword c = (r, c1)"
  shows "connected c1 = connected c" and "state c1 = state c" and "playerID c1 = playerID c"
    and "tempPassword c1 = tempPassword c"
proof -
  have eq: "c1 = c\<lparr>conn := conn c1, werr := werr c1\<rparr>"
    using assms by (rule ReadPassword_frame)
  show "connected c1 = connected c" by (subst eq) simp
  show "state c1 = state c" by (subst eq) simp
  show "playerID c1 = playerID c" by (subst eq) simp
  show "tempPassword c1 = tempPassword c" by (subst eq) simp
qed

lemma HandleClient_loop_stop:
  "\<not> connected c \<Longrightarrow> HandleClient_loop env db c = Some (db, c)"
  by (subst HandleClient_loop.simps) (simp add: IsConnected_def)

lemma HandleClient_loop_step:
  "connected c \<Longrightarrow> readInput c = (Inr line, c1) \<Longrightarrow> dispatch env db c1 line = (db2, c2) \<Longrightarrow>
     HandleClient_loop env db c = HandleClient_loop env db2 c2"
  by (subst HandleClient_loop.simps) (simp add: IsConnected_def)

lemma ReadPassword_wrong_then_right:
  "fst (ReadPassword (authenticating wrong_then_right)) = Inr ''hunter2''"
  "rd (conn (snd (ReadPassword (authenticating wrong_then_right)))) = ''secret1'' @ [CHR 0x0D, CHR 0x0A]"
  "map fst (wlog (conn (snd (ReadPassword (authenticating wrong_then_right)))))
     = [IAC_WILL_ECHO, IAC_WONT_ECHO, CRLF]"
  "werr (snd (ReadPassword (authenticating wrong_then_right))) = None"
  by (simp_all add: ReadPassword_def client_conn_Write_def conn_Write_def NewClient_def
      conn_of_input_def set_rd_def writer_WriteFlush_def wrong_then_right_def string_of_byte_def
      authenticating_def)

lemma TrimSpace_hunter2: "TrimSpace ''hunter2'' = ''hunter2''"
  by code_simp

lemma TrimSpace_secret1: "TrimSpace ''  secret1 '' = ''secret1''" "TrimSpace ''secret1'' = ''secret1''"
  by code_simp+

lemma TrimSpace_secret2: "TrimSpace ''secret2'' = ''secret2''" "TrimSpace ''another1'' = ''another1''"
  by code_simp+

lemma TrimSpace_bob: "TrimSpace ''bob'' = ''bob''" "TrimSpace ''secret1'' = ''secret1''"
  by code_simp+

lemma confirming_healthy: "healthy confirming"
  by (simp add: healthy_def confirming_def NewClient_def conn_of_input_def)

lemma mismatch_result:
  "(send m2 (SetTempPassword [] (send m1 c)))\<lparr>conn := conn c, werr := werr c\<rparr>
     = c\<lparr>tempPassword := []\<rparr>"
proof -
  have "(send m2 (SetTempPassword [] (send m1 c)))\<lparr>conn := conn c, werr := werr c\<rparr>
          = (SetTempPassword [] (send m1 c))\<lparr>conn := conn c, werr := werr c\<rparr>"
    by (rule send_restore)
  also have "\<dots> = ((send m1 c)\<lparr>conn := conn c, werr := werr c\<rparr>)\<lparr>tempPassword := []\<rparr>"
    by (simp add: SetTempPassword_def)
  also have "\<dots> = (c\<lparr>conn := conn c, werr := werr c\<rparr>)\<lparr>tempPassword := []\<rparr>"
    by (simp only: send_restore)
  also have "\<dots> = c\<lparr>tempPassword := []\<rparr>"
    by simp
  finally show ?thesis .
qed

lemma TrimSpace_blank: "TrimSpace ''   '' = []"
  by code_simp

lemma sendPrompt_log:
  "connected c \<Longrightarrow> werr c = None \<Longrightarrow>
     map fst (wlog (conn (sendPrompt m c))) = map fst (wlog (conn c)) @ [m]"
  by (auto simp: sendPrompt_def SendPrompt_def writer_WriteFlush_def conn_Write_def)

lemma blank_handler:
  "state (snd (dispatch store_env [alice] (authenticating []) ''   '')) = StateAuthenticating
   \<and> connected (snd (dispatch store_env [alice] (authenticating []) ''   ''))
   \<and> map fst (wlog (conn (snd (dispatch store_env [alice] (authenticating []) ''   ''))))
        = [''Password cannot be empty. Please enter your password:'' @ CRLF, ''Password: '']"
  by (simp add: dispatch_def handlePasswordAuth_def TrimSpace_blank authenticating_def NewClient_def
      send_def Send_def sendPrompt_def SendPrompt_def writer_WriteFlush_def conn_Write_def
      conn_of_input_def)

lemma ReadPassword_healthy:
  assumes h: "healthy c" and l: "ReadPassword_loop (rd (conn c)) [] = (Inr line, rest)"
  shows "fst (ReadPassword c) = Inr line" and "healthy (snd (ReadPassword c))"
    and "rd (conn (snd (ReadPassword c))) = rest"
  using h l
  by (simp_all add: ReadPassword_def client_conn_Write_def conn_Write_def writer_WriteFlush_def
      set_rd_def healthy_def)

lemma sendPrompt_healthy:
  assumes "healthy c"
  shows "healthy (sendPrompt m c)" and "wlog (conn (sendPrompt m c)) = wlog (conn c) @ [(m, True)]"
  using assms
  by (auto simp: healthy_def sendPrompt_def SendPrompt_def writer_WriteFlush_def conn_Write_def)

lemma SetState_healthy [simp]: "healthy (SetState s c) = healthy c"
  by (simp add: healthy_def SetState_def)

lemma showCharacterMenu_healthy: "healthy c \<Longrightarrow> healthy (showCharacterMenu c)"
  by (simp add: showCharacterMenu_def send_healthy(1) sendPrompt_healthy(1))

lemma healthy_connected: "healthy c \<Longrightarrow> connected c"
  by (simp add: healthy_def)

lemma ReadLine_empty:
  assumes "rd (conn c) = []"
  shows "fst (ReadLine c) = Inl EOF" and "state (snd (ReadLine c)) = state c"
    and "connected (snd (ReadLine c)) = connected c" and "rd (conn (snd (ReadLine c))) = []"
  using assms by (simp_all add: ReadLine_def ReadString_nl_def)

lemma blank_then_right_reads:
  "ReadPassword_loop blank_then_right [] = (Inr ''   '', ''secret1'' @ [CHR 0x0D, CHR 0x0A])"
  "ReadPassword_loop (''secret1'' @ [CHR 0x0D, CHR 0x0A]) [] = (Inr ''secret1'', [])"
  by (simp_all add: blank_then_right_def string_of_byte_def)

lemma authenticating_healthy: "healthy (authenticating bs)"
  by (simp add: healthy_def authenticating_def NewClient_def conn_of_input_def)

lemma SetTempUsername_healthy [simp]: "healthy (SetTempUsername u c) = healthy c"
  by (simp add: healthy_def SetTempUsername_def)

lemma SetTempUsername_wlog [simp]: "wlog (conn (SetTempUsername u c)) = wlog (conn c)"
  by (simp add: SetTempUsername_def)

lemma Close_closed: "connected c \<Longrightarrow> closed (conn (Close c))"
  by (simp add: Close_def conn_Close_def)

lemma createAccount_failed:
  assumes "snd (createAccount env db c) = Close (send m c)"
  shows "\<not> connected (snd (createAccount env db c))"
    and "connected c \<longrightarrow> state (snd (createAccount env db c)) = StateDisconnecting
            \<and> closed (conn (snd (createAccount env db c)))"
    and "connected c \<and> werr c = None \<longrightarrow>
            map fst (wlog (conn (snd (createAccount env db c)))) = map fst (wlog (conn c)) @ [m @ CRLF]"
    and "tempUsername (snd (createAccount env db c)) = tempUsername c"
    and "tempEmail (snd (createAccount env db c)) = tempEmail c"
    and "tempPassword (snd (createAccount env db c)) = tempPassword c"
  by (simp_all add: assms Close_connected_client send_log)

text \<open>
  Claim C8, as amended. A client in the Authenticating state enters a password which,
  trimmed of white space, is not empty and does not match the hash of the player looked up
  by its player id. Then the loop of the driver handles the entry and ends at once: the
  connection is closed and in state Disconnecting, the input after the entry has not
  been read (no further password attempt, no retry), and, after what the password read
  wrote, the only thing sent is the line \<open>Invalid password.\<close> (no prompt).
\<close>

theorem wrong_password_closes:
  assumes live: "connected c" and st: "state c = StateAuthenticating"
      and entry: "ReadPassword c = (Inr password, c1)"
      and pid: "playerID c \<noteq> []" and ne: "TrimSpace password \<noteq> []"
      and player: "GetPlayer env db (playerID c) = Inr existingPlayer"
      and bad: "CompareHashAndPassword env (PasswordHash existingPlayer) (TrimSpace password) = Some err"
  shows "\<exists>c2. HandleClient_loop env db c = Some (db, c2)
           \<and> dispatch env db c1 password = (db, c2)
           \<and> \<not> connected c2 \<and> state c2 = StateDisconnecting \<and> closed (conn c2)
           \<and> rd (conn c2) = rd (conn c1)
           \<and> (werr c1 = None \<longrightarrow>
                 map fst (wlog (conn c2)) = map fst (wlog (conn c1)) @ [''Invalid password.'' @ CRLF])"
proof -
  let ?c2 = "Close (send ''Invalid password.'' c1)"
  note same = ReadPassword_fields[OF entry]
  have h: "handlePasswordAuth env db c1 password = (db, ?c2)"
    using pid ne player bad by (simp add: handlePasswordAuth_def same)
  then have d: "dispatch env db c1 password = (db, ?c2)"
    using st by (simp add: dispatch_def same)
  have r: "readInput c = (Inr password, c1)"
    using st entry by (simp add: readInput_def)
  have "HandleClient_loop env db c = HandleClient_loop env db ?c2"
    using HandleClient_loop_step[OF live r d] .
  also have "\<dots> = Some (db, ?c2)"
    by (rule HandleClient_loop_stop) simp
  finally have loop: "HandleClient_loop env db c = Some (db, ?c2)" .
  have closed: "state ?c2 = StateDisconnecting \<and> closed (conn ?c2)"
    using live by (intro Close_connected_client) (simp add: same)
  have log: "werr c1 = None \<longrightarrow>
      map fst (wlog (conn ?c2)) = map fst (wlog (conn c1)) @ [''Invalid password.'' @ CRLF]"
    using live by (simp add: send_log same)
  show ?thesis
    using loop d closed log by (intro exI[of _ ?c2]) simp
qed

theorem wrong_password_closes_witness:
  "\<exists>c2. HandleClient_loop store_env [alice] (authenticating wrong_then_right) = Some ([alice], c2)
      \<and> \<not> connected c2 \<and> state c2 = StateDisconnecting \<and> closed (conn c2)
      \<and> rd (conn c2) = ''secret1'' @ [CHR 0x0D, CHR 0x0A]
      \<and> map fst (wlog (conn c2))
           = [IAC_WILL_ECHO, IAC_WONT_ECHO, CRLF, ''Invalid password.'' @ CRLF]"
proof -
  let ?c = "authenticating wrong_then_right"
  have entry: "ReadPassword ?c = (Inr ''hunter2'', snd (ReadPassword ?c))"
    using ReadPassword_wrong_then_right(1) by (simp add: prod_eq_iff)
  have live: "connected ?c" and st: "state ?c = StateAuthenticating" and pid: "playerID ?c \<noteq> []"
    by (simp_all add: authenticating_def NewClient_def)
  have ne: "TrimSpace ''hunter2'' \<noteq> []"
    by (simp add: TrimSpace_hunter2)
  have player: "GetPlayer store_env [alice] (playerID ?c) = Inr alice"
    by (simp add: store_env_def alice_def authenticating_def)
  have bad: "CompareHashAndPassword store_env (PasswordHash alice) (TrimSpace ''hunter2'')
               = Some (Failure ''hash and password differ'')"
    by (simp add: store_env_def alice_def TrimSpace_hunter2)
  from wrong_password_closes[OF live st entry pid ne player bad]
  obtain c2 where loop: "HandleClient_loop store_env [alice] ?c = Some ([alice], c2)"
    and off: "\<not> connected c2" "state c2 = StateDisconnecting" "closed (conn c2)"
    and left: "rd (conn c2) = rd (conn (snd (ReadPassword ?c)))"
    and log: "werr (snd (ReadPassword ?c)) = None \<longrightarrow>
        map fst (wlog (conn c2))
          = map fst (wlog (conn (snd (ReadPassword ?c)))) @ [''Invalid password.'' @ CRLF]"
    by (elim exE conjE) (rule that)
  from left have left': "rd (conn c2) = ''secret1'' @ [CHR 0x0D, CHR 0x0A]"
    by (simp only: ReadPassword_wrong_then_right(2))
  from log have log': "map fst (wlog (conn c2))
      = [IAC_WILL_ECHO, IAC_WONT_ECHO, CRLF, ''Invalid password.'' @ CRLF]"
    by (simp only: ReadPassword_wrong_then_right(3,4)) simp
  from loop off left' log' show ?thesis
    by (intro exI[of _ c2]) (simp only: simp_thms)
qed

text \<open>
  The claim as it is written fails on an entry that is not empty but is white space only.
  For three spaces, which do not match the hash, the handler sends
  \<open>Password cannot be empty\<close> and the password prompt and leaves the client connected in
  state Authenticating; the loop then reads the next entry as a password and, that one
  being right, logs the player in.
\<close>

theorem blank_password_is_asked_again_counterexample:
  "''   '' \<noteq> []
   \<and> CompareHashAndPassword store_env (PasswordHash alice) ''   '' \<noteq> None
   \<and> state (snd (dispatch store_env [alice] (authenticating []) ''   '')) = StateAuthenticating
   \<and> connected (snd (dispatch store_env [alice] (authenticating []) ''   ''))
   \<and> map fst (wlog (conn (snd (dispatch store_env [alice] (authenticating []) ''   ''))))
        = [''Password cannot be empty. Please enter your password:'' @ CRLF, ''Password: '']
   \<and> map_option (state \<circ> snd)
         (HandleClient_loop store_env [alice] (authenticating blank_then_right))
        = Some StateCharacterSelection
   \<and> map_option (rd \<circ> conn \<circ> snd)
         (HandleClient_loop store_env [alice] (authenticating blank_then_right))
        = Some []"
proof -
  define C0 where "C0 = authenticating blank_then_right"
  define C1 where "C1 = snd (ReadPassword C0)"
  define C2 where "C2 = sendPrompt ''Password: ''
                          (send ''Password cannot be empty. Please enter your password:'' C1)"
  define C3 where "C3 = snd (ReadPassword C2)"
  define C4 where "C4 = showCharacterMenu (SetState StateCharacterSelection
                          (send (''Welcome back, '' @ Username alice @ ''!'') C3))"
  have h0: "healthy C0" and s0: "state C0 = StateAuthenticating" "playerID C0 = ''player-1''"
    and i0: "rd (conn C0) = blank_then_right"
    by (simp_all add: C0_def authenticating_healthy) (simp_all add: authenticating_def NewClient_def conn_of_input_def)
  have p0: "ReadPassword C0 = (Inr ''   '', C1)"
    using ReadPassword_healthy(1)[OF h0, of "''   ''"] blank_then_right_reads(1)
    by (simp add: prod_eq_iff C1_def i0)
  have h1: "healthy C1" and i1: "rd (conn C1) = ''secret1'' @ [CHR 0x0D, CHR 0x0A]"
    using ReadPassword_healthy(2,3)[OF h0, of "''   ''"] blank_then_right_reads(1)
    by (simp_all add: C1_def i0)
  have s1: "state C1 = StateAuthenticating" "playerID C1 = ''player-1''"
    using ReadPassword_fields[OF p0] s0 by simp_all
  have r0: "readInput C0 = (Inr ''   '', C1)"
    using p0 s0 by (simp add: readInput_def)
  have d0: "dispatch store_env [alice] C1 ''   '' = ([alice], C2)"
    using s1 by (simp add: dispatch_def handlePasswordAuth_def TrimSpace_blank C2_def)
  have h2: "healthy C2"
    unfolding C2_def by (intro sendPrompt_healthy(1) send_healthy(1) h1)
  have s2: "state C2 = StateAuthenticating" "playerID C2 = ''player-1''"
    and i2: "rd (conn C2) = ''secret1'' @ [CHR 0x0D, CHR 0x0A]"
    using s1 i1 by (simp_all add: C2_def)
  have p2: "ReadPassword C2 = (Inr ''secret1'', C3)"
    using ReadPassword_healthy(1)[OF h2, of "''secret1''"] blank_then_right_reads(2)
    by (simp add: prod_eq_iff C3_def i2)
  have h3: "healthy C3" and i3: "rd (conn C3) = []"
    using ReadPassword_healthy(2,3)[OF h2, of "''secret1''"] blank_then_right_reads(2)
    by (simp_all add: C3_def i2)
  have s3: "state C3 = StateAuthenticating" "playerID C3 = ''player-1''"
    using ReadPassword_fields[OF p2] s2 by simp_all
  have r2: "readInput C2 = (Inr ''secret1'', C3)"
    using p2 s2 by (simp add: readInput_def)
  have d2: "dispatch store_env [alice] C3 ''secret1'' = ([alice], C4)"
    using s3 by (simp add: dispatch_def handlePasswordAuth_def TrimSpace_secret1 C4_def
        store_env_def alice_def)
  have s4: "state C4 = StateCharacterSelection" "connected C4" "rd (conn C4) = []"
    using healthy_connected[OF h3] i3 by (simp_all add: C4_def)
  have r4: "readInput C4 = (Inl EOF, snd (ReadLine C4))"
    using ReadLine_empty(1)[OF s4(3)] s4(1) by (simp add: readInput_def prod_eq_iff)
  have "HandleClient_loop store_env [alice] C0 = HandleClient_loop store_env [alice] C2"
    using healthy_connected[OF h0] r0 d0 by (rule HandleClient_loop_step)
  also have "\<dots> = HandleClient_loop store_env [alice] C4"
    using healthy_connected[OF h2] r2 d2 by (rule HandleClient_loop_step)
  also have "\<dots> = Some ([alice], snd (ReadLine C4))"
    by (subst HandleClient_loop.simps) (simp add: IsConnected_def s4 r4)
  finally have run: "HandleClient_loop store_env [alice] (authenticating blank_then_right)
      = Some ([alice], snd (ReadLine C4))"
    by (simp only: C0_def)
  have differ: "CompareHashAndPassword store_env (PasswordHash alice) ''   '' \<noteq> None"
    by (simp add: store_env_def alice_def)
  show ?thesis
    using blank_handler differ ReadLine_empty(2,4)[OF s4(3)] s4(1)
    by (simp add: run)
qed

text \<open>
  Claim C9. In the ConfirmingPassword state with a pending password, an entry which,
  trimmed, differs from the pending password changes the client record in one field
  only, apart from what is written to the connection: the pending password is emptied.
  The pending username and email, the player id, the character id, the state
  (ConfirmingPassword) and the connection's being open are as before; two lines are
  sent, the second the prompt of the first step; and the next entry of six characters or
  more is taken as a first entry and stored as pending.
\<close>

theorem confirmation_mismatch_clears_pending_only:
  assumes st: "state c = StateConfirmingPassword"
      and second: "tempPassword c \<noteq> []"
      and mismatch: "tempPassword c \<noteq> TrimSpace password"
  shows "\<exists>c'. dispatch env db c password = (db, c')
           \<and> c'\<lparr>conn := conn c, werr := werr c\<rparr> = c\<lparr>tempPassword := []\<rparr>
           \<and> tempPassword c' = []
           \<and> tempUsername c' = tempUsername c \<and> tempEmail c' = tempEmail c
           \<and> playerID c' = playerID c \<and> characterID c' = characterID c
           \<and> state c' = StateConfirmingPassword \<and> connected c' = connected c
           \<and> rd (conn c') = rd (conn c) \<and> closed (conn c') = closed (conn c)
           \<and> (healthy c \<longrightarrow>
                 wlog (conn c') = wlog (conn c) @
                   [(''Passwords do not match.'' @ CRLF, True),
                    (''Please choose a password (minimum 6 characters):'' @ CRLF, True)])
           \<and> (\<forall>p2. 6 \<le> length (TrimSpace p2) \<longrightarrow>
                 tempPassword (snd (dispatch env db c' p2)) = TrimSpace p2)"
proof -
  let ?m1 = "''Passwords do not match.''"
  let ?m2 = "''Please choose a password (minimum 6 characters):''"
  let ?c' = "send ?m2 (SetTempPassword [] (send ?m1 c))"
  have d: "dispatch env db c password = (db, ?c')"
    using st second mismatch by (simp add: dispatch_def handlePasswordConfirmation_def)
  have frame: "?c'\<lparr>conn := conn c, werr := werr c\<rparr> = c\<lparr>tempPassword := []\<rparr>"
    by (rule mismatch_result)
  have fields: "tempPassword ?c' = []" "tempUsername ?c' = tempUsername c"
    "tempEmail ?c' = tempEmail c" "playerID ?c' = playerID c" "characterID ?c' = characterID c"
    "state ?c' = state c" "connected ?c' = connected c"
    "rd (conn ?c') = rd (conn c)" "closed (conn ?c') = closed (conn c)"
    by (simp_all add: SetTempPassword_def)
  have log: "healthy c \<longrightarrow> wlog (conn ?c') = wlog (conn c) @ [(?m1 @ CRLF, True), (?m2 @ CRLF, True)]"
  proof
    assume h: "healthy c"
    have h1: "healthy (SetTempPassword [] (send ?m1 c))"
      using send_healthy(1)[OF h] by simp
    show "wlog (conn ?c') = wlog (conn c) @ [(?m1 @ CRLF, True), (?m2 @ CRLF, True)]"
      by (simp only: send_healthy(2)[OF h1] SetTempPassword_wlog send_healthy(2)[OF h]) simp
  qed
  have again: "\<forall>p2. 6 \<le> length (TrimSpace p2) \<longrightarrow>
      tempPassword (snd (dispatch env db ?c' p2)) = TrimSpace p2"
    using st fields
    by (simp add: dispatch_def handlePasswordConfirmation_def SetTempPassword_def)
  show ?thesis
    apply (rule exI[of _ ?c'])
    apply (intro conjI)
    apply (rule d)
    apply (rule frame)
    apply (rule fields(1))
    apply (rule fields(2))
    apply (rule fields(3))
    apply (rule fields(4))
    apply (rule fields(5))
    apply (simp only: fields(6) st)
    apply (rule fields(7))
    apply (rule fields(8))
    apply (rule fields(9))
    apply (rule log)
    apply (rule again)
    done
qed

theorem confirmation_mismatch_clears_pending_only_witness:
  "\<exists>c'. dispatch store_env [] confirming ''secret2'' = ([], c')
     \<and> tempPassword confirming = ''secret1''
     \<and> tempPassword c' = [] \<and> tempUsername c' = ''alice'' \<and> tempEmail c' = ''alice@example.com''
     \<and> playerID c' = [] \<and> characterID c' = [] \<and> state c' = StateConfirmingPassword
     \<and> connected c'
     \<and> wlog (conn c') =
           [(''Passwords do not match.'' @ CRLF, True),
            (''Please choose a password (minimum 6 characters):'' @ CRLF, True)]
     \<and> tempPassword (snd (dispatch store_env [] c' ''another1'')) = ''another1''"
proof -
  have st: "state confirming = StateConfirmingPassword"
    and second: "tempPassword confirming \<noteq> []"
    and mismatch: "tempPassword confirming \<noteq> TrimSpace ''secret2''"
    by (simp_all add: confirming_def NewClient_def TrimSpace_secret2)
  from confirmation_mismatch_clears_pending_only[OF st second mismatch, of store_env "[]"]
  obtain c' where d: "dispatch store_env [] confirming ''secret2'' = ([], c')"
    and f: "tempPassword c' = []" "tempUsername c' = tempUsername confirming"
      "tempEmail c' = tempEmail confirming" "playerID c' = playerID confirming"
      "characterID c' = characterID confirming" "state c' = StateConfirmingPassword"
      "connected c' = connected confirming"
    and log: "healthy confirming \<longrightarrow>
                 wlog (conn c') = wlog (conn confirming) @
                   [(''Passwords do not match.'' @ CRLF, True),
                    (''Please choose a password (minimum 6 characters):'' @ CRLF, True)]"
    and again: "\<forall>p2. 6 \<le> length (TrimSpace p2) \<longrightarrow>
                 tempPassword (snd (dispatch store_env [] c' p2)) = TrimSpace p2"
    by (elim exE conjE) (rule that)
  have vals: "tempPassword confirming = ''secret1''" "tempUsername confirming = ''alice''"
    "tempEmail confirming = ''alice@example.com''" "playerID confirming = []"
    "characterID confirming = []" "connected confirming" "wlog (conn confirming) = []"
    by (simp_all add: confirming_def NewClient_def conn_of_input_def)
  have next_entry: "tempPassword (snd (dispatch store_env [] c' ''another1'')) = ''another1''"
    using again[rule_format, of "''another1''"] by (simp add: TrimSpace_secret2)
  have log': "wlog (conn c') =
           [(''Passwords do not match.'' @ CRLF, True),
            (''Please choose a password (minimum 6 characters):'' @ CRLF, True)]"
    using log confirming_healthy by (simp add: vals)
  show ?thesis
    apply (rule exI[of _ c'])
    apply (simp only: d f vals log' next_entry simp_thms)
    done
qed

text \<open>
  Claim C10. Both password handlers work on the trimmed entry only: two entries with the
  same trimmed form give the same messages, the same next state, the same store and the
  same pending password; so an entry and the same entry with white space before and after
  it (ASCII white space here) give the same; and what a first entry stores as pending is
  its trimmed form.
\<close>

theorem trimmed_passwords_indistinguishable:
  "(TrimSpace p1 = TrimSpace p2 \<longrightarrow>
       handlePasswordAuth env db c p1 = handlePasswordAuth env db c p2
     \<and> handlePasswordConfirmation env db c p1 = handlePasswordConfirmation env db c p2)
   \<and> (list_all asciiSpace ws1 \<and> list_all asciiSpace ws2 \<longrightarrow>
       handlePasswordAuth env db c (ws1 @ p @ ws2) = handlePasswordAuth env db c p
     \<and> handlePasswordConfirmation env db c (ws1 @ p @ ws2) = handlePasswordConfirmation env db c p)
   \<and> (tempPassword c = [] \<and> 6 \<le> length (TrimSpace p1) \<longrightarrow>
       tempPassword (snd (handlePasswordConfirmation env db c p1)) = TrimSpace p1)"
proof (intro conjI impI)
  assume "TrimSpace p1 = TrimSpace p2"
  then show "handlePasswordAuth env db c p1 = handlePasswordAuth env db c p2"
    and "handlePasswordConfirmation env db c p1 = handlePasswordConfirmation env db c p2"
    by (simp_all add: handlePasswordAuth_def handlePasswordConfirmation_def)
next
  assume "list_all asciiSpace ws1 \<and> list_all asciiSpace ws2"
  then have "TrimSpace (ws1 @ p @ ws2) = TrimSpace p"
    by (simp add: TrimSpace_padding)
  then show "handlePasswordAuth env db c (ws1 @ p @ ws2) = handlePasswordAuth env db c p"
    and "handlePasswordConfirmation env db c (ws1 @ p @ ws2)
           = handlePasswordConfirmation env db c p"
    by (simp_all add: handlePasswordAuth_def handlePasswordConfirmation_def)
next
  assume "tempPassword c = [] \<and> 6 \<le> length (TrimSpace p1)"
  then show "tempPassword (snd (handlePasswordConfirmation env db c p1)) = TrimSpace p1"
    by (simp add: handlePasswordConfirmation_def SetTempPassword_def)
qed

theorem trimmed_passwords_indistinguishable_witness:
  "TrimSpace ''  secret1 '' = TrimSpace ''secret1''
   \<and> list_all asciiSpace ''  '' \<and> list_all asciiSpace '' ''
   \<and> handlePasswordAuth store_env [alice] (authenticating []) ''  secret1 ''
       = handlePasswordAuth store_env [alice] (authenticating []) ''secret1''
   \<and> state (snd (handlePasswordAuth store_env [alice] (authenticating []) ''  secret1 ''))
       = StateCharacterSelection
   \<and> handlePasswordConfirmation store_env [] confirming ''  secret1 ''
       = handlePasswordConfirmation store_env [] confirming ''secret1''
   \<and> playerID (snd (handlePasswordConfirmation store_env [] confirming ''  secret1 '')) = ''player-2''
   \<and> tempPassword choosing = [] \<and> 6 \<le> length (TrimSpace ''  secret1 '')
   \<and> tempPassword (snd (handlePasswordConfirmation store_env [] choosing ''  secret1 ''))
       = ''secret1''"
proof -
  have eq: "TrimSpace ''  secret1 '' = TrimSpace ''secret1''"
    by (simp add: TrimSpace_secret1)
  have pad: "list_all asciiSpace ''  '' \<and> list_all asciiSpace '' ''"
    by (simp add: asciiSpace_def)
  have first: "tempPassword choosing = [] \<and> 6 \<le> length (TrimSpace ''  secret1 '')"
    by (simp add: choosing_def TrimSpace_secret1)
  have login: "state (snd (handlePasswordAuth store_env [alice] (authenticating []) ''  secret1 ''))
       = StateCharacterSelection"
    by (simp add: handlePasswordAuth_def TrimSpace_secret1 authenticating_def NewClient_def
        store_env_def alice_def SetState_def)
  have created: "playerID (snd (handlePasswordConfirmation store_env [] confirming ''  secret1 ''))
      = ''player-2''"
    by (simp add: handlePasswordConfirmation_def createAccount_def TrimSpace_secret1 confirming_def
        NewClient_def store_env_def NewPlayer_def SetState_def ClearTempData_def SetPlayerID_def)
  note a = trimmed_passwords_indistinguishable[where ?p1.0 = "''  secret1 ''"
      and ?p2.0 = "''secret1''" and env = store_env and db = "[alice]" and c = "authenticating []",
      THEN conjunct1, rule_format, OF eq]
  note b = trimmed_passwords_indistinguishable[where ?ws1.0 = "''  ''" and ?ws2.0 = "'' ''"
      and p = "''secret1''" and env = store_env and db = "[]" and c = confirming,
      THEN conjunct2, THEN conjunct1, rule_format, OF pad]
  note c = trimmed_passwords_indistinguishable[where ?p1.0 = "''  secret1 ''"
      and env = store_env and db = "[]" and c = choosing,
      THEN conjunct2, THEN conjunct2, rule_format, OF first]
  have b': "handlePasswordConfirmation store_env [] confirming ''  secret1 ''
       = handlePasswordConfirmation store_env [] confirming ''secret1''"
    using b by simp
  have c': "tempPassword (snd (handlePasswordConfirmation store_env [] choosing ''  secret1 ''))
      = ''secret1''"
    using c by (simp only: TrimSpace_secret1)
  show ?thesis
    using eq pad first login created a b' c' by (simp only: simp_thms)
qed

text \<open>
  Claim C3, as amended. When hashing and persisting the new player succeed, the three
  temp fields are empty afterwards, the state is CharacterSelection and the player id is
  the new player's. When the hashing fails, or when the store refuses the player, the
  failure message of that case is sent (the one line written, on a client that can
  send) and the connection is closed (state Disconnecting, the transport closed);
  \<open>ClearTempData\<close> is not called, so the three temp fields are what they were.
\<close>

theorem createAccount_temp_data:
  "(\<forall>h db1. GenerateFromPassword env (tempPassword c) = Inr h
        \<and> CreatePlayer env db (NewPlayer (uuid_New env) (tempUsername c) (tempEmail c) h) = (None, db1)
      \<longrightarrow> tempUsername (snd (createAccount env db c)) = []
          \<and> tempEmail (snd (createAccount env db c)) = []
          \<and> tempPassword (snd (createAccount env db c)) = []
          \<and> state (snd (createAccount env db c)) = StateCharacterSelection
          \<and> playerID (snd (createAccount env db c)) = uuid_New env
          \<and> connected (snd (createAccount env db c)) = connected c)
   \<and> (\<forall>e. GenerateFromPassword env (tempPassword c) = Inl e
      \<longrightarrow> fst (createAccount env db c) = db
          \<and> \<not> connected (snd (createAccount env db c))
          \<and> (connected c \<longrightarrow> state (snd (createAccount env db c)) = StateDisconnecting
                \<and> closed (conn (snd (createAccount env db c))))
          \<and> (connected c \<and> werr c = None \<longrightarrow>
                map fst (wlog (conn (snd (createAccount env db c))))
                  = map fst (wlog (conn c))
                    @ [''Failed to create account due to internal error.'' @ CRLF])
          \<and> tempUsername (snd (createAccount env db c)) = tempUsername c
          \<and> tempEmail (snd (createAccount env db c)) = tempEmail c
          \<and> tempPassword (snd (createAccount env db c)) = tempPassword c)
   \<and> (\<forall>h e db1. GenerateFromPassword env (tempPassword c) = Inr h
        \<and> CreatePlayer env db (NewPlayer (uuid_New env) (tempUsername c) (tempEmail c) h)
            = (Some e, db1)
      \<longrightarrow> fst (createAccount env db c) = db1
          \<and> \<not> connected (snd (createAccount env db c))
          \<and> (connected c \<longrightarrow> state (snd (createAccount env db c)) = StateDisconnecting
                \<and> closed (conn (snd (createAccount env db c))))
          \<and> (connected c \<and> werr c = None \<longrightarrow>
                map fst (wlog (conn (snd (createAccount env db c))))
                  = map fst (wlog (conn c))
                    @ [''Failed to create account. Username might already be taken.'' @ CRLF])
          \<and> tempUsername (snd (createAccount env db c)) = tempUsername c
          \<and> tempEmail (snd (createAccount env db c)) = tempEmail c
          \<and> tempPassword (snd (createAccount env db c)) = tempPassword c)"
proof (intro conjI allI impI)
  fix h db1
  assume ok: "GenerateFromPassword env (tempPassword c) = Inr h
        \<and> CreatePlayer env db (NewPlayer (uuid_New env) (tempUsername c) (tempEmail c) h) = (None, db1)"
  then have eq: "createAccount env db c =
      (db1, showCharacterMenu (SetState StateCharacterSelection
              (send (''Account created successfully! Welcome to DungeoGo, '' @ tempUsername c @ ''!'')
                (SetPlayerID (P_ID (NewPlayer (uuid_New env) (tempUsername c) (tempEmail c) h))
                   (ClearTempData c)))))"
    by (simp add: createAccount_def Let_def)
  show "tempUsername (snd (createAccount env db c)) = []"
    and "tempEmail (snd (createAccount env db c)) = []"
    and "tempPassword (snd (createAccount env db c)) = []"
    and "state (snd (createAccount env db c)) = StateCharacterSelection"
    and "playerID (snd (createAccount env db c)) = uuid_New env"
    and "connected (snd (createAccount env db c)) = connected c"
    by (simp_all add: eq SetState_def SetPlayerID_def ClearTempData_def NewPlayer_def)
next
  fix e
  assume "GenerateFromPassword env (tempPassword c) = Inl e"
  then have eq: "createAccount env db c
      = (db, Close (send ''Failed to create account due to internal error.'' c))"
    by (simp add: createAccount_def Let_def)
  then have s: "snd (createAccount env db c)
      = Close (send ''Failed to create account due to internal error.'' c)"
    by simp
  show "fst (createAccount env db c) = db" by (simp add: eq)
  show "\<not> connected (snd (createAccount env db c))"
    and "tempUsername (snd (createAccount env db c)) = tempUsername c"
    and "tempEmail (snd (createAccount env db c)) = tempEmail c"
    and "tempPassword (snd (createAccount env db c)) = tempPassword c"
    by (rule createAccount_failed[OF s])+
  show "state (snd (createAccount env db c)) = StateDisconnecting" if "connected c"
    using createAccount_failed(2)[OF s] that by simp
  show "closed (conn (snd (createAccount env db c)))" if "connected c"
    using createAccount_failed(2)[OF s] that by simp
  show "map fst (wlog (conn (snd (createAccount env db c))))
          = map fst (wlog (conn c)) @ [''Failed to create account due to internal error.'' @ CRLF]"
    if "connected c \<and> werr c = None"
    using createAccount_failed(3)[OF s] that by simp
next
  fix h e db1
  assume "GenerateFromPassword env (tempPassword c) = Inr h
        \<and> CreatePlayer env db (NewPlayer (uuid_New env) (tempUsername c) (tempEmail c) h)
            = (Some e, db1)"
  then have eq: "createAccount env db c
      = (db1, Close (send ''Failed to create account. Username might already be taken.'' c))"
    by (simp add: createAccount_def Let_def)
  then have s: "snd (createAccount env db c)
      = Close (send ''Failed to create account. Username might already be taken.'' c)"
    by simp
  show "fst (createAccount env db c) = db1" by (simp add: eq)
  show "\<not> connected (snd (createAccount env db c))"
    and "tempUsername (snd (createAccount env db c)) = tempUsername c"
    and "tempEmail (snd (createAccount env db c)) = tempEmail c"
    and "tempPassword (snd (createAccount env db c)) = tempPassword c"
    by (rule createAccount_failed[OF s])+
  show "state (snd (createAccount env db c)) = StateDisconnecting" if "connected c"
    using createAccount_failed(2)[OF s] that by simp
  show "closed (conn (snd (createAccount env db c)))" if "connected c"
    using createAccount_failed(2)[OF s] that by simp
  show "map fst (wlog (conn (snd (createAccount env db c))))
          = map fst (wlog (conn c))
            @ [''Failed to create account. Username might already be taken.'' @ CRLF]"
    if "connected c \<and> werr c = None"
    using createAccount_failed(3)[OF s] that by simp
qed

theorem createAccount_temp_data_witness:
  "GenerateFromPassword store_env (tempPassword entering) = Inr ''hash:secret1''
   \<and> fst (CreatePlayer store_env [alice]
             (NewPlayer (uuid_New store_env) (tempUsername entering) (tempEmail entering) ''hash:secret1''))
       = None
   \<and> tempUsername (snd (createAccount store_env [alice] entering)) = []
   \<and> tempEmail (snd (createAccount store_env [alice] entering)) = []
   \<and> tempPassword (snd (createAccount store_env [alice] entering)) = []
   \<and> state (snd (createAccount store_env [alice] entering)) = StateCharacterSelection
   \<and> GenerateFromPassword store_env (tempPassword overlong) = Inl (Failure ''password too long'')
   \<and> \<not> connected (snd (createAccount store_env [alice] overlong))
   \<and> closed (conn (snd (createAccount store_env [alice] overlong)))
   \<and> map fst (wlog (conn (snd (createAccount store_env [alice] overlong))))
        = [''Failed to create account due to internal error.'' @ CRLF]
   \<and> fst (CreatePlayer store_env [alice]
             (NewPlayer (uuid_New store_env) (tempUsername confirming) (tempEmail confirming) ''hash:secret1''))
       = Some (Failure ''duplicate key'')
   \<and> \<not> connected (snd (createAccount store_env [alice] confirming))
   \<and> state (snd (createAccount store_env [alice] confirming)) = StateDisconnecting
   \<and> closed (conn (snd (createAccount store_env [alice] confirming)))
   \<and> map fst (wlog (conn (snd (createAccount store_env [alice] confirming))))
        = [''Failed to create account. Username might already be taken.'' @ CRLF]
   \<and> tempPassword (snd (createAccount store_env [alice] confirming)) = tempPassword confirming"
proof -
  have hash: "GenerateFromPassword store_env (tempPassword entering) = Inr ''hash:secret1''"
    "GenerateFromPassword store_env (tempPassword confirming) = Inr ''hash:secret1''"
    "GenerateFromPassword store_env (tempPassword overlong) = Inl (Failure ''password too long'')"
    by (simp_all add: store_env_def entering_def confirming_def overlong_def NewClient_def)
  have stored: "CreatePlayer store_env [alice]
      (NewPlayer (uuid_New store_env) (tempUsername entering) (tempEmail entering) ''hash:secret1'')
      = (None, [alice, NewPlayer ''player-2'' ''bob'' ''bob@example.com'' ''hash:secret1''])"
    by (simp add: store_env_def entering_def confirming_def NewClient_def NewPlayer_def alice_def)
  have refused: "CreatePlayer store_env [alice]
      (NewPlayer (uuid_New store_env) (tempUsername confirming) (tempEmail confirming) ''hash:secret1'')
      = (Some (Failure ''duplicate key''), [alice])"
    by (simp add: store_env_def confirming_def NewClient_def NewPlayer_def alice_def)
  have live: "connected confirming" "werr confirming = None" "wlog (conn confirming) = []"
    "connected overlong" "werr overlong = None" "wlog (conn overlong) = []"
    by (simp_all add: confirming_def entering_def overlong_def NewClient_def conn_of_input_def)
  note good = createAccount_temp_data[where env = store_env and c = entering and db = "[alice]",
      THEN conjunct1, rule_format, OF conjI[OF hash(1) stored]]
  note nohash = createAccount_temp_data[where env = store_env and c = overlong and db = "[alice]",
      THEN conjunct2, THEN conjunct1, rule_format, OF hash(3)]
  note bad = createAccount_temp_data[where env = store_env and c = confirming and db = "[alice]",
      THEN conjunct2, THEN conjunct2, rule_format, OF conjI[OF hash(2) refused]]
  show ?thesis
    using good nohash bad hash stored refused live by simp
qed

text \<open>
  The claim as it is written fails when the store refuses the new player (here the name
  was taken in the meantime): the pending username, email and password are still there
  after \<open>createAccount\<close>.
\<close>

theorem createAccount_keeps_temp_data_on_failure_counterexample:
  "fst (CreatePlayer store_env [alice]
          (NewPlayer (uuid_New store_env) (tempUsername confirming) (tempEmail confirming)
             ''hash:secret1''))
     = Some (Failure ''duplicate key'')
   \<and> tempUsername (snd (createAccount store_env [alice] confirming)) = ''alice''
   \<and> tempEmail (snd (createAccount store_env [alice] confirming)) = ''alice@example.com''
   \<and> tempPassword (snd (createAccount store_env [alice] confirming)) = ''secret1''"
  by (simp add: createAccount_def store_env_def confirming_def NewClient_def NewPlayer_def alice_def
      Let_def)

text \<open>
  Claim C4, as amended. In the Authenticating state, when the lookup of the player by id
  fails, the one line \<open>Authentication failed.\<close> is sent and the connection is closed. In
  the Connected state, when the lookup by username fails because the store has no player
  of that name, the connection stays as it is: the name is taken as a new player's and
  stored as the pending username, the account-creation lines and the email prompt are
  sent, and the state becomes CreatingAccount.
\<close>

theorem store_lookup_failures:
  "(state c = StateAuthenticating \<and> connected c \<and> TrimSpace password \<noteq> [] \<and> playerID c \<noteq> []
      \<and> GetPlayer env db (playerID c) = Inl err
    \<longrightarrow> fst (dispatch env db c password) = db
        \<and> \<not> connected (snd (dispatch env db c password))
        \<and> state (snd (dispatch env db c password)) = StateDisconnecting
        \<and> closed (conn (snd (dispatch env db c password)))
        \<and> (werr c = None \<longrightarrow>
              map fst (wlog (conn (snd (dispatch env db c password))))
                = map fst (wlog (conn c)) @ [''Authentication failed.'' @ CRLF]))
   \<and> (state c = StateConnected \<and> TrimSpace username \<noteq> []
      \<and> GetPlayerByUsername env db (TrimSpace username) = Inl (player_not_found (TrimSpace username))
    \<longrightarrow> fst (dispatch env db c username) = db
        \<and> state (snd (dispatch env db c username)) = StateCreatingAccount
        \<and> tempUsername (snd (dispatch env db c username)) = TrimSpace username
        \<and> connected (snd (dispatch env db c username)) = connected c
        \<and> closed (conn (snd (dispatch env db c username))) = closed (conn c)
        \<and> (healthy c \<longrightarrow>
              wlog (conn (snd (dispatch env db c username)))
                = wlog (conn c)
                  @ [(''New player! Creating account for: '' @ TrimSpace username @ CRLF, True),
                     (''Please enter your email address:'' @ CRLF, True),
                     (''Email: '', True)]))"
proof (intro conjI impI)
  assume a: "state c = StateAuthenticating \<and> connected c \<and> TrimSpace password \<noteq> []
      \<and> playerID c \<noteq> [] \<and> GetPlayer env db (playerID c) = Inl err"
  then have eq: "dispatch env db c password = (db, Close (send ''Authentication failed.'' c))"
    by (simp add: dispatch_def handlePasswordAuth_def)
  show "fst (dispatch env db c password) = db"
    and "\<not> connected (snd (dispatch env db c password))"
    by (simp_all add: eq)
  show "state (snd (dispatch env db c password)) = StateDisconnecting"
    and "closed (conn (snd (dispatch env db c password)))"
    using a by (simp_all add: eq Close_connected_client)
  show "map fst (wlog (conn (snd (dispatch env db c password))))
          = map fst (wlog (conn c)) @ [''Authentication failed.'' @ CRLF]" if "werr c = None"
    using a that by (simp add: eq send_log)
next
  assume b: "state c = StateConnected \<and> TrimSpace username \<noteq> []
      \<and> GetPlayerByUsername env db (TrimSpace username)
          = Inl (player_not_found (TrimSpace username))"
  let ?u = "TrimSpace username"
  let ?c1 = "SetTempUsername ?u c"
  let ?c2 = "send (''New player! Creating account for: '' @ ?u) ?c1"
  let ?c3 = "send ''Please enter your email address:'' ?c2"
  let ?c4 = "sendPrompt ''Email: '' ?c3"
  from b have eq: "dispatch env db c username = (db, SetState StateCreatingAccount ?c4)"
    by (simp add: dispatch_def handleLogin_def Let_def)
  show "fst (dispatch env db c username) = db"
    and "state (snd (dispatch env db c username)) = StateCreatingAccount"
    and "tempUsername (snd (dispatch env db c username)) = TrimSpace username"
    and "connected (snd (dispatch env db c username)) = connected c"
    and "closed (conn (snd (dispatch env db c username))) = closed (conn c)"
    by (simp_all add: eq SetTempUsername_def)
  show "wlog (conn (snd (dispatch env db c username)))
          = wlog (conn c)
            @ [(''New player! Creating account for: '' @ TrimSpace username @ CRLF, True),
               (''Please enter your email address:'' @ CRLF, True),
               (''Email: '', True)]" if h: "healthy c"
  proof -
    have h1: "healthy ?c1" using h by simp
    have h2: "healthy ?c2" using h1 by (rule send_healthy(1))
    have h3: "healthy ?c3" using h2 by (rule send_healthy(1))
    have "wlog (conn ?c4) = wlog (conn ?c3) @ [(''Email: '', True)]"
      using h3 by (rule sendPrompt_healthy(2))
    also have "wlog (conn ?c3) = wlog (conn ?c2) @ [(''Please enter your email address:'' @ CRLF, True)]"
      using h2 by (rule send_healthy(2))
    also have "wlog (conn ?c2)
        = wlog (conn ?c1) @ [((''New player! Creating account for: '' @ ?u) @ CRLF, True)]"
      using h1 by (rule send_healthy(2))
    finally show ?thesis by (simp add: eq)
  qed
qed

theorem store_lookup_failures_witness:
  "GetPlayer store_env [alice] (playerID orphaned) = Inl (player_not_found ''player-9'')
   \<and> \<not> connected (snd (dispatch store_env [alice] orphaned ''secret1''))
   \<and> state (snd (dispatch store_env [alice] orphaned ''secret1'')) = StateDisconnecting
   \<and> map fst (wlog (conn (snd (dispatch store_env [alice] orphaned ''secret1''))))
        = [''Authentication failed.'' @ CRLF]
   \<and> GetPlayerByUsername store_env [alice] (TrimSpace ''bob'') = Inl (player_not_found ''bob'')
   \<and> state (snd (dispatch store_env [alice] (NewClient ''c1'' (conn_of_input [])) ''bob''))
        = StateCreatingAccount
   \<and> tempUsername (snd (dispatch store_env [alice] (NewClient ''c1'' (conn_of_input [])) ''bob''))
        = ''bob''
   \<and> connected (snd (dispatch store_env [alice] (NewClient ''c1'' (conn_of_input [])) ''bob''))
   \<and> wlog (conn (snd (dispatch store_env [alice] (NewClient ''c1'' (conn_of_input [])) ''bob'')))
        = [(''New player! Creating account for: bob'' @ CRLF, True),
           (''Please enter your email address:'' @ CRLF, True),
           (''Email: '', True)]"
proof -
  let ?n = "NewClient ''c1'' (conn_of_input [])"
  have a: "state orphaned = StateAuthenticating \<and> connected orphaned
      \<and> TrimSpace ''secret1'' \<noteq> [] \<and> playerID orphaned \<noteq> []
      \<and> GetPlayer store_env [alice] (playerID orphaned) = Inl (player_not_found ''player-9'')"
    by (simp add: orphaned_def authenticating_def NewClient_def TrimSpace_bob store_env_def
        alice_def)
  have w: "werr orphaned = None" "wlog (conn orphaned) = []"
    by (simp_all add: orphaned_def authenticating_def NewClient_def conn_of_input_def)
  have b: "state ?n = StateConnected \<and> TrimSpace ''bob'' \<noteq> []
      \<and> GetPlayerByUsername store_env [alice] (TrimSpace ''bob'')
          = Inl (player_not_found (TrimSpace ''bob''))"
    by (simp add: NewClient_def TrimSpace_bob store_env_def alice_def)
  have live: "connected ?n" "healthy ?n" "wlog (conn ?n) = []"
    by (simp_all add: NewClient_def healthy_def conn_of_input_def)
  note first = store_lookup_failures[where c = orphaned and password = "''secret1''"
      and env = store_env and db = "[alice]" and err = "player_not_found ''player-9''",
      THEN conjunct1, rule_format, OF a]
  note second = store_lookup_failures[where c = ?n and username = "''bob''"
      and env = store_env and db = "[alice]", THEN conjunct2, rule_format, OF b]
  show ?thesis
    using first second a b w live by (simp add: TrimSpace_bob)
qed

text \<open>
  The claim as it is written fails on the username lookup: after the lookup of a name
  that the store does not have, the client is connected, its connection open, in state
  CreatingAccount.
\<close>

theorem username_lookup_failure_counterexample:
  "GetPlayerByUsername store_env [alice] ''bob'' = Inl (player_not_found ''bob'')
   \<and> connected (snd (handleLogin store_env [alice] (NewClient ''c1'' (conn_of_input [])) ''bob''))
   \<and> state (snd (handleLogin store_env [alice] (NewClient ''c1'' (conn_of_input [])) ''bob''))
        = StateCreatingAccount
   \<and> \<not> closed (conn (snd (handleLogin store_env [alice] (NewClient ''c1'' (conn_of_input [])) ''bob'')))"
  by (simp add: handleLogin_def TrimSpace_bob store_env_def alice_def Let_def NewClient_def
      SetTempUsername_def conn_of_input_def)

end
